theory Spec2Isabelle
  imports Main "HOL-Library.AList"
begin

section \<open>Go types and values, as package reflect reports them\<close>

text \<open>
  \<^verbatim>\<open>iterx.go\<close> inspects its destination through package \<^verbatim>\<open>reflect\<close>. It compares
  \<^verbatim>\<open>Kind()\<close> with \<^verbatim>\<open>reflect.Ptr\<close>, \<^verbatim>\<open>reflect.Slice\<close> and \<^verbatim>\<open>reflect.Struct\<close> only; every other
  kind is kept by the name \<^verbatim>\<open>Kind.String()\<close> prints. \<open>Invalid\<close> is the kind of the zero
  \<^verbatim>\<open>reflect.Value\<close> (a nil interface, or \<^verbatim>\<open>reflect.Indirect\<close> of a nil pointer).
\<close>

datatype kind = Invalid | Ptr | Slice | Struct | OtherKind string

text \<open>
  Modelled from the spec: the two interface types \<^verbatim>\<open>unmarshallerInterface\<close>
  (\<^verbatim>\<open>gocql.Unmarshaler\<close>) and \<^verbatim>\<open>udtUnmarshallerInterface\<close> (\<^verbatim>\<open>gocql.UDTUnmarshaler\<close>) are
  package variables declared outside \<^verbatim>\<open>iterx.go\<close>; they are the "custom single-value
  marshal/unmarshal capability" of the classifier.
\<close>

datatype iface_type = unmarshallerInterface | udtUnmarshallerInterface

text \<open>
  A type is a struct type or another type literal (identified by the text reflect prints
  for it), a pointer type, a slice type, or a defined type \<^verbatim>\<open>type N U\<close>. A defined type
  carries the interfaces that the method set of \<^verbatim>\<open>*N\<close> satisfies.
\<close>

datatype gotype =
    StructType string
  | OtherType string
  | PtrTo gotype
  | SliceOf gotype
  | Defined string "iface_type list" gotype

fun Kind :: "gotype \<Rightarrow> kind" where
  "Kind (StructType _) = Struct"
| "Kind (OtherType k) = OtherKind k"
| "Kind (PtrTo _) = Ptr"
| "Kind (SliceOf _) = Slice"
| "Kind (Defined _ _ u) = Kind u"

text \<open>
  \<^verbatim>\<open>Type.Elem\<close> panics on a type that is neither pointer nor slice; the code calls it
  behind a \<open>Kind\<close> test only, so the last equation is never reached from it.
\<close>

fun Elem :: "gotype \<Rightarrow> gotype" where
  "Elem (PtrTo t) = t"
| "Elem (SliceOf t) = t"
| "Elem (Defined _ _ u) = Elem u"
| "Elem t = t"

text \<open>Only defined types have methods; a pointer to a pointer has none.\<close>

fun Implements :: "gotype \<Rightarrow> iface_type \<Rightarrow> bool" where
  "Implements (PtrTo (Defined _ ifs _)) i = (i \<in> set ifs)"
| "Implements _ _ = False"

text \<open>\<^verbatim>\<open>reflectx.Deref\<close>: one level of pointer is removed from a type.\<close>

definition Deref :: "gotype \<Rightarrow> gotype" where
  "Deref t = (if Kind t = Ptr then Elem t else t)"

text \<open>
  A column value is the text of its bytes. A value is the zero value of its type (a nil
  slice, an empty struct), a value decoded from one column, a struct given by the cells
  stored at its field paths, a slice with its elements and capacity, or a pointer.
\<close>

type_synonym cell = string

datatype val =
    VZero
  | VCell cell
  | VStruct "(nat list \<times> cell) list"
  | VSlice "val list" nat
  | VPtr "val option"

text \<open>
  \<^verbatim>\<open>dest interface{}\<close>: the nil interface, or a dynamic type with its data word. For a
  pointer type the data word is the pointee (\<open>None\<close> for a nil pointer). \<open>ValueOf_Kind\<close>
  is \<^verbatim>\<open>reflect.ValueOf(dest).Kind()\<close>; \<open>IsNil\<close> is asked of pointers only.
\<close>

datatype iface = NilIface | Iface gotype "val option"

fun ValueOf_Kind :: "iface \<Rightarrow> kind" where
  "ValueOf_Kind NilIface = Invalid"
| "ValueOf_Kind (Iface t _) = Kind t"

fun IsNil :: "iface \<Rightarrow> bool" where
  "IsNil NilIface = True"
| "IsNil (Iface _ d) = (d = None)"

fun TypeOf :: "iface \<Rightarrow> gotype option" where
  "TypeOf NilIface = None"
| "TypeOf (Iface t _) = Some t"

section \<open>Errors\<close>

text \<open>
  One constructor for each error the code builds, with the values its message is
  formatted from, and \<^verbatim>\<open>gocql.ErrNotFound\<close>. An error of the driver is its message.
\<close>

datatype error =
    ExpectedPointer "gotype option"
  | ExpectedPointerGotNil
  | BaseTypeError kind kind
  | StructOnlyMisuse gotype
  | ColumnCount kind nat
  | MustPassPointer
  | MissingDestinationName string "gotype option"
  | ArgumentNotStruct
  | DriverError string
  | ErrNotFound

section \<open>The collaborators: field resolver and cursor\<close>

text \<open>
  The field resolver is \<^verbatim>\<open>reflectx.Mapper\<close>, a package the code imports. \<open>TypeMap\<close> gives
  for a struct type the list of its mapped fields (\<open>Index\<close>, each field by its index path)
  and the fields by name (\<open>Names\<close>). \<open>TraversalsByName\<close> removes one pointer from the
  type and panics when what is left is not a struct (\<^verbatim>\<open>mustBe(t, reflect.Struct)\<close>): the
  panic is the value \<open>None\<close>. Otherwise it looks every name up in the map of the type and
  answers the empty path for a name that is not there. \<open>traversal_calls\<close> counts the
  calls that return, as the instrumentation counter of a resolver stub does.
\<close>

record StructMap =
  Index :: "nat list list"
  Names :: "(string \<times> nat list) list"

record Mapper =
  TypeMap :: "gotype \<Rightarrow> StructMap"
  traversal_calls :: nat

definition TraversalsByName ::
  "Mapper \<Rightarrow> gotype \<Rightarrow> string list \<Rightarrow> (nat list list \<times> Mapper) option" where
  "TraversalsByName m t names =
     (let t1 = Deref t in
      if Kind t1 \<noteq> Struct then None
      else Some (map (\<lambda>name. case map_of (Names (TypeMap m t1)) name of
                                None \<Rightarrow> [] | Some ix \<Rightarrow> ix) names,
                 m\<lparr>traversal_calls := Suc (traversal_calls m)\<rparr>))"

text \<open>
  The cursor is \<^verbatim>\<open>gocql.Iter\<close>, of the driver the code imports; the code uses its
  \<^verbatim>\<open>Columns\<close>, \<^verbatim>\<open>NumRows\<close>, \<^verbatim>\<open>Scan\<close> and \<^verbatim>\<open>Close\<close>. Its state is the driver's error, the
  position in the current page, the columns of the result, the rows of the current page,
  the pages still to fetch, and whether \<open>Close\<close> was called. A row decodes into its
  cells, or its decoding fails with a message after some cells were stored. \<open>NumRows\<close> is
  the number of rows of the current page.
\<close>

datatype row = Row "cell list" | BadRow "cell list" string

record ColumnInfo =
  Keyspace :: string
  Table :: string
  Name :: string

record Iter =
  iter_err :: "string option"
  pos :: nat
  meta_columns :: "ColumnInfo list"
  page :: "row list"
  next_pages :: "row list list"
  closed :: bool

definition Columns :: "Iter \<Rightarrow> ColumnInfo list" where
  "Columns it = meta_columns it"

definition NumRows :: "Iter \<Rightarrow> nat" where
  "NumRows it = length (page it)"

text \<open>
  \<^verbatim>\<open>Iter.Scan\<close> with \<open>n\<close> destinations: the result, the cells stored into the destinations
  in order, and the cursor afterwards. A cursor that holds an error scans nothing; at the
  end of a page the next page is fetched; at the end of the last page the scan returns
  false without an error; a number of destinations other than the number of columns,
  and a row that does not decode, leave the driver's error on the cursor. \<open>Close\<close> returns
  the driver's error.
\<close>

function Iter_Scan :: "nat \<Rightarrow> Iter \<Rightarrow> bool \<times> cell list \<times> Iter" where
  "Iter_Scan n it =
     (if iter_err it \<noteq> None then (False, [], it)
      else if length (page it) \<le> pos it then
        (case next_pages it of
           [] \<Rightarrow> (False, [], it)
         | p # ps \<Rightarrow> Iter_Scan n (it\<lparr>pos := 0, page := p, next_pages := ps\<rparr>))
      else if n \<noteq> length (meta_columns it) then
        (False, [], it\<lparr>iter_err := Some ''gocql: not enough columns to scan into''\<rparr>)
      else
        (case page it ! pos it of
           Row cells \<Rightarrow> (True, cells, it\<lparr>pos := Suc (pos it)\<rparr>)
         | BadRow cells msg \<Rightarrow> (False, cells, it\<lparr>iter_err := Some msg\<rparr>)))"
  by pat_completeness auto
termination
  by (relation "measure (\<lambda>(n, it). length (next_pages it))") auto

declare Iter_Scan.simps [simp del]

definition Iter_Close :: "Iter \<Rightarrow> string option \<times> Iter" where
  "Iter_Close it = (iter_err it, it\<lparr>closed := True\<rparr>)"

section \<open>Iterx\<close>

text \<open>
  A slot of the value buffer is nil (as \<^verbatim>\<open>make\<close> leaves it), or points at the field of the
  current destination with the given index path, or at a fresh discard cell
  (\<^verbatim>\<open>new(interface{})\<close>).
\<close>

datatype slot = NilSlot | FieldAddr "nat list" | Discard

text \<open>
  The fields of \<^verbatim>\<open>Iterx\<close>; \<open>iter_fields\<close> and \<open>iter_values\<close> are the cache fields
  \<^verbatim>\<open>fields\<close> and \<^verbatim>\<open>values\<close>.
\<close>

record Iterx =
  Iter :: Iter
  Mapper :: Mapper
  unsafe :: bool
  structOnly :: bool
  started :: bool
  err :: "error option"
  iter_fields :: "nat list list"
  iter_values :: "slot list"

text \<open>
  The methods have pointer receivers: a method of the model takes the state of the
  receiver and returns it updated. \<open>Unsafe\<close> and \<open>StructOnly\<close> return the receiver,
  which is that state.
\<close>

definition Unsafe :: "Iterx \<Rightarrow> Iterx" where
  "Unsafe iter = iter\<lparr>unsafe := True\<rparr>"

definition StructOnly :: "Iterx \<Rightarrow> Iterx" where
  "StructOnly iter = iter\<lparr>structOnly := True\<rparr>"

definition isScannable :: "Iterx \<Rightarrow> gotype \<Rightarrow> bool" where
  "isScannable iter t =
     (if Implements (PtrTo t) unmarshallerInterface \<or> Implements (PtrTo t) udtUnmarshallerInterface
      then True
      else if Kind t \<noteq> Struct then True
      else length (Index (TypeMap (Mapper iter) t)) = 0)"

section \<open>Scanning one row\<close>

text \<open>\<^verbatim>\<open>v.Type()\<close> of a non-zero value; the zero value has no type and is never asked.\<close>

fun Value_Type :: "iface \<Rightarrow> gotype" where
  "Value_Type (Iface t _) = t"
| "Value_Type NilIface = OtherType ''invalid''"

text \<open>The kind of \<^verbatim>\<open>reflect.Indirect(v)\<close>: of the pointee for a pointer, \<open>Invalid\<close> for a nil one.\<close>

fun Indirect_Kind :: "iface \<Rightarrow> kind" where
  "Indirect_Kind NilIface = Invalid"
| "Indirect_Kind (Iface t d) =
     (if Kind t = Ptr then (if d = None then Invalid else Kind (Elem t)) else Kind t)"

definition columnNames :: "ColumnInfo list \<Rightarrow> string list" where
  "columnNames ci = map Name ci"

text \<open>
  Modelled from the spec: \<^verbatim>\<open>missingFields\<close> is defined outside \<^verbatim>\<open>iterx.go\<close>. It reports the
  first column whose path is absent (an empty traversal), by its index.
\<close>

fun missingFields :: "nat list list \<Rightarrow> nat option" where
  "missingFields [] = None"
| "missingFields (t # ts) = (if length t = 0 then Some 0 else map_option Suc (missingFields ts))"

text \<open>
  Modelled from the spec: \<^verbatim>\<open>fieldsByTraversal\<close> is defined outside \<^verbatim>\<open>iterx.go\<close>. The
  destination must refer to a record, otherwise the call fails; each value slot is
  re-pointed to the field of \<open>dest\<close> at its traversal path, and an absent path is bound to
  a discard slot. Slot \<open>i\<close> is assigned by index; the buffer has one slot for each
  traversal whenever \<open>StructScan\<close> allocated it.
\<close>

definition slot_of :: "nat list \<Rightarrow> slot" where
  "slot_of traversal = (if length traversal = 0 then Discard else FieldAddr traversal)"

definition fieldsByTraversal :: "iface \<Rightarrow> nat list list \<Rightarrow> slot list \<Rightarrow> error + slot list" where
  "fieldsByTraversal v traversals vals =
     (if Indirect_Kind v \<noteq> Struct then Inl ArgumentNotStruct
      else Inr (fold (\<lambda>(i, traversal) vs. vs[i := slot_of traversal])
                     (enumerate 0 traversals) vals))"

text \<open>What \<^verbatim>\<open>Iter.Scan\<close> stores: cell \<open>i\<close> goes to the target of slot \<open>i\<close>.\<close>

fun store_cell :: "slot \<Rightarrow> cell \<Rightarrow> val \<Rightarrow> val" where
  "store_cell (FieldAddr p) c v = VStruct (AList.update p c (case v of VStruct fs \<Rightarrow> fs | _ \<Rightarrow> []))"
| "store_cell _ c v = v"

fun store_dest :: "slot list \<Rightarrow> cell list \<Rightarrow> iface \<Rightarrow> iface" where
  "store_dest slots cells (Iface t (Some v)) =
     Iface t (Some (fold (\<lambda>(s, c). store_cell s c) (zip slots cells) v))"
| "store_dest slots cells d = d"

fun store_single :: "cell list \<Rightarrow> iface \<Rightarrow> iface" where
  "store_single (c # cs) (Iface t (Some v)) = Iface t (Some (VCell c))"
| "store_single cells d = d"

text \<open>The promoted \<^verbatim>\<open>iter.Scan(dest)\<close> of the embedded cursor, with \<open>dest\<close> as its only slot.\<close>

definition Scan :: "iface \<Rightarrow> Iterx \<Rightarrow> bool \<times> iface \<times> Iterx" where
  "Scan dest iter =
     (case Iter_Scan 1 (Iter iter) of
        (ok, cells, it) \<Rightarrow> (ok, store_single cells dest, iter\<lparr>Iter := it\<rparr>))"

text \<open>
  The block \<^verbatim>\<open>if !iter.started { ... }\<close> of \<open>StructScan\<close>: \<open>None\<close> is the panic of the
  resolver, \<open>Inl\<close> the early return of the block.
\<close>

definition start :: "iface \<Rightarrow> Iterx \<Rightarrow> (Iterx + Iterx) option" where
  "start dest iter =
     (let columns = columnNames (Columns (Iter iter)) in
      case TraversalsByName (Mapper iter) (Value_Type dest) columns of
        None \<Rightarrow> None
      | Some (fs, m) \<Rightarrow>
          (let iter1 = iter\<lparr>Mapper := m, iter_fields := fs\<rparr>
           in case (if \<not> unsafe iter1 then missingFields (iter_fields iter1) else None) of
                Some f \<Rightarrow>
                  Some (Inl (iter1\<lparr>err := Some (MissingDestinationName (columns ! f)
                                                   (TypeOf dest))\<rparr>))
              | None \<Rightarrow>
                  Some (Inr (iter1\<lparr>iter_values := replicate (length columns) NilSlot,
                                  started := True\<rparr>))))"

text \<open>
  \<open>StructScan\<close> returns its result, or panics (\<open>None\<close>): inside the resolver, when an
  unstarted binder is given a pointer to anything but a struct.
\<close>

definition StructScan :: "iface \<Rightarrow> Iterx \<Rightarrow> (bool \<times> iface \<times> Iterx) option" where
  "StructScan dest iter =
     (if ValueOf_Kind dest \<noteq> Ptr then Some (False, dest, iter\<lparr>err := Some MustPassPointer\<rparr>)
      else
        case (if \<not> started iter then start dest iter else Some (Inr iter)) of
          None \<Rightarrow> None
        | Some (Inl iter1) \<Rightarrow> Some (False, dest, iter1)
        | Some (Inr iter1) \<Rightarrow>
            (case fieldsByTraversal dest (iter_fields iter1) (iter_values iter1) of
               Inl e \<Rightarrow> Some (False, dest, iter1\<lparr>err := Some e\<rparr>)
             | Inr vals \<Rightarrow>
                 (case Iter_Scan (length vals) (Iter iter1) of
                    (ok, cells, it) \<Rightarrow>
                      Some (ok, store_dest vals cells dest,
                            iter1\<lparr>Iter := it, iter_values := vals\<rparr>))))"

text \<open>
  A call of \<open>StructScan\<close> from \<open>scanAny\<close> or from the loop of \<open>scanAll\<close>, which go on with
  what the call returns. Both call it with a pointer to a struct, since every other base
  type is scannable, and there \<open>StructScan\<close> returns (\<open>scanAny_StructScan_returns\<close> and
  \<open>scanAll_StructScan_returns\<close> below). A panic would leave the caller as well; the triple
  written for it is never reached.
\<close>

definition call_StructScan :: "iface \<Rightarrow> Iterx \<Rightarrow> bool \<times> iface \<times> Iterx" where
  "call_StructScan dest iter =
     (case StructScan dest iter of Some result \<Rightarrow> result | None \<Rightarrow> (False, dest, iter))"

definition Close :: "Iterx \<Rightarrow> error option \<times> Iterx" where
  "Close iter =
     (case Iter_Close (Iter iter) of
        (e, it) \<Rightarrow>
          (let iter1 = iter\<lparr>Iter := it\<rparr>;
               iter2 = (if err iter1 = None then iter1\<lparr>err := map_option DriverError e\<rparr> else iter1)
           in (err iter2, iter2)))"

definition checkErrAndNotFound :: "Iterx \<Rightarrow> error option" where
  "checkErrAndNotFound iter =
     (if err iter \<noteq> None then err iter
      else if NumRows (Iter iter) = 0 then Some ErrNotFound
      else None)"

section \<open>Get\<close>

text \<open>
  Modelled from the spec: \<^verbatim>\<open>structOnlyError\<close> is defined outside \<^verbatim>\<open>iterx.go\<close>; it builds the
  struct-only misuse error naming the type.
\<close>

definition structOnlyError :: "gotype \<Rightarrow> error" where
  "structOnlyError t = StructOnlyMisuse t"

text \<open>
  The classification both \<open>scanAny\<close> (lines 99 to 108) and \<open>scanAll\<close> (lines 164 to 173)
  perform on the base type: the value of \<^verbatim>\<open>scannable\<close> after the \<^verbatim>\<open>structOnly\<close> block, or
  the error that block records.
\<close>

definition scannable_verdict :: "Iterx \<Rightarrow> gotype \<Rightarrow> error + bool" where
  "scannable_verdict iter base =
     (let scannable = isScannable iter base in
      if structOnly iter \<and> scannable then
        (if Kind base = Struct then Inr False else Inl (structOnlyError base))
      else Inr scannable)"

definition scanAny :: "iface \<Rightarrow> Iterx \<Rightarrow> bool \<times> iface \<times> Iterx" where
  "scanAny dest iter =
     (if ValueOf_Kind dest \<noteq> Ptr then
        (False, dest, iter\<lparr>err := Some (ExpectedPointer (TypeOf dest))\<rparr>)
      else if IsNil dest then (False, dest, iter\<lparr>err := Some ExpectedPointerGotNil\<rparr>)
      else
        let base = Deref (Value_Type dest) in
        (case scannable_verdict iter base of
           Inl e \<Rightarrow> (False, dest, iter\<lparr>err := Some e\<rparr>)
         | Inr scannable \<Rightarrow>
             (if scannable \<and> length (Columns (Iter iter)) > 1 then
                (False, dest,
                 iter\<lparr>err := Some (ColumnCount (Kind base) (length (Columns (Iter iter))))\<rparr>)
              else if scannable then Scan dest iter
              else call_StructScan dest iter)))"

definition Get :: "iface \<Rightarrow> Iterx \<Rightarrow> error option \<times> iface \<times> Iterx" where
  "Get dest iter =
     (case scanAny dest iter of
        (ok, dest1, iter1) \<Rightarrow>
          (case Close iter1 of
             (e, iter2) \<Rightarrow> (checkErrAndNotFound iter2, dest1, iter2)))"

section \<open>Select\<close>

text \<open>
  Modelled from the spec: \<^verbatim>\<open>baseType\<close> is defined outside \<^verbatim>\<open>iterx.go\<close>. The destination
  must be a pointer to a growable ordered sequence: the pointer is removed from the type,
  and a type of another kind than the expected one is an error.
\<close>

definition baseType :: "gotype \<Rightarrow> kind \<Rightarrow> error + gotype" where
  "baseType t expected =
     (let t1 = Deref t in
      if Kind t1 \<noteq> expected then Inl (BaseTypeError expected (Kind t1)) else Inr t1)"

text \<open>
  \<^verbatim>\<open>reflect.New\<close>, \<^verbatim>\<open>reflect.MakeSlice\<close>, \<^verbatim>\<open>reflect.Indirect\<close>, the pointer held by a value,
  \<^verbatim>\<open>reflect.Append\<close> and \<^verbatim>\<open>Value.Set\<close> through a pointer. The capacity a full slice grows
  to is the runtime's choice: \<open>grow\<close> gives it from the old capacity and the length
  needed. \<open>Append\<close> to a value that is no slice, and \<open>Set\<close> through a nil pointer, panic
  in Go; the code reaches neither.
\<close>

definition New :: "gotype \<Rightarrow> iface" where
  "New t = Iface (PtrTo t) (Some VZero)"

definition MakeSlice :: "nat \<Rightarrow> nat \<Rightarrow> val" where
  "MakeSlice len cap = VSlice (replicate len VZero) cap"

fun Indirect :: "iface \<Rightarrow> val" where
  "Indirect (Iface t (Some v)) = v"
| "Indirect d = VZero"

fun Pointer :: "iface \<Rightarrow> val" where
  "Pointer (Iface t d) = VPtr d"
| "Pointer NilIface = VPtr None"

fun Append :: "(nat \<Rightarrow> nat \<Rightarrow> nat) \<Rightarrow> val \<Rightarrow> val \<Rightarrow> val" where
  "Append grow (VSlice xs c) x =
     VSlice (xs @ [x]) (if length xs < c then c else grow c (Suc (length xs)))"
| "Append grow v x = v"

fun Set_Indirect :: "iface \<Rightarrow> val \<Rightarrow> iface" where
  "Set_Indirect (Iface t (Some old)) v = Iface t (Some v)"
| "Set_Indirect d v = d"

text \<open>The rows a cursor has not yet scanned, over all its pages.\<close>

definition remaining :: "Iter \<Rightarrow> row list" where
  "remaining it = drop (pos it) (page it) @ concat (next_pages it)"

text \<open>
  The loop of \<open>scanAll\<close>, with the locals \<^verbatim>\<open>alloc\<close> and \<^verbatim>\<open>v\<close> as its accumulator. It ends
  because every scan that succeeds takes a row from the cursor.
\<close>

function scanAll_loop ::
  "(nat \<Rightarrow> nat \<Rightarrow> nat) \<Rightarrow> gotype \<Rightarrow> bool \<Rightarrow> bool \<Rightarrow> bool \<times> val \<Rightarrow> Iterx \<Rightarrow> (bool \<times> val) \<times> Iterx" where
  "scanAll_loop grow base scannable isPtr (alloc, v) iter =
     (case (if \<not> scannable then call_StructScan (New base) iter
            else Scan (New base) iter) of
        (ok, vp, iter1) \<Rightarrow>
          if \<not> ok then ((alloc, v), iter1)
          else
            let v1 = (if \<not> alloc then MakeSlice 0 (NumRows (Iter iter1)) else v);
                v2 = (if isPtr then Append grow v1 (Pointer vp) else Append grow v1 (Indirect vp))
            in scanAll_loop grow base scannable isPtr (True, v2) iter1)"
  by pat_completeness auto
termination
proof -
  have cursor: "length (remaining it1) < length (remaining it)"
    if "Iter_Scan n it = (True, cells, it1)" for n it cells it1
    using that
  proof (induction n it rule: Iter_Scan.induct)
    case (1 n it)
    show ?case
    proof (cases "iter_err it = None \<and> length (page it) \<le> pos it")
      case True
      then obtain p ps where ps: "next_pages it = p # ps"
        using "1.prems" by (cases "next_pages it") (auto simp: Iter_Scan.simps [of n it])
      from True ps "1.prems"
      have "Iter_Scan n (it\<lparr>pos := 0, page := p, next_pages := ps\<rparr>) = (True, cells, it1)"
        by (simp add: Iter_Scan.simps [of n it])
      with "1.IH" True ps
      have "length (remaining it1)
            < length (remaining (it\<lparr>pos := 0, page := p, next_pages := ps\<rparr>))"
        by simp
      with True ps show ?thesis by (simp add: remaining_def)
    next
      case False
      with "1.prems" show ?thesis
        by (auto simp: remaining_def Iter_Scan.simps [of n it] split: if_splits row.splits)
    qed
  qed
  have plain: "length (remaining (Iter iter1)) < length (remaining (Iter iter))"
    if "(True, dest1, iter1) = Scan dest iter" for dest iter dest1 iter1
    using that [symmetric] by (auto simp: Scan_def split: prod.splits dest: cursor)
  have start: "Iter iter1 = Iter iter" if "start dest iter = Some (Inr iter1)" for dest iter iter1
    using that by (auto simp: start_def Let_def split: prod.splits option.splits if_splits)
  have struct: "length (remaining (Iter iter1)) < length (remaining (Iter iter))"
    if "(True, dest1, iter1) = call_StructScan dest iter" for dest iter dest1 iter1
    using that [symmetric]
    by (auto simp: call_StructScan_def StructScan_def
        split: if_splits option.splits sum.splits prod.splits dest!: cursor start)
  show ?thesis
    apply (relation "measure (\<lambda>(grow, base, scannable, isPtr, acc, iter).
                                length (remaining (Iter iter)))")
     apply simp
    apply (auto split: if_splits dest: struct plain)
    done
qed

declare scanAll_loop.simps [simp del]

definition scanAll :: "(nat \<Rightarrow> nat \<Rightarrow> nat) \<Rightarrow> iface \<Rightarrow> Iterx \<Rightarrow> bool \<times> iface \<times> Iterx" where
  "scanAll grow dest iter =
     (if ValueOf_Kind dest \<noteq> Ptr then
        (False, dest, iter\<lparr>err := Some (ExpectedPointer (TypeOf dest))\<rparr>)
      else if IsNil dest then (False, dest, iter\<lparr>err := Some ExpectedPointerGotNil\<rparr>)
      else
        case baseType (Value_Type dest) Slice of
          Inl e \<Rightarrow> (False, dest, iter\<lparr>err := Some e\<rparr>)
        | Inr slice \<Rightarrow>
            let isPtr = (Kind (Elem slice) = Ptr);
                base = Deref (Elem slice)
            in (case scannable_verdict iter base of
                  Inl e \<Rightarrow> (False, dest, iter\<lparr>err := Some e\<rparr>)
                | Inr scannable \<Rightarrow>
                    (if scannable \<and> length (Columns (Iter iter)) > 1 then
                       (False, dest,
                        iter\<lparr>err := Some (ColumnCount (Kind base) (length (Columns (Iter iter))))\<rparr>)
                     else
                       (case scanAll_loop grow base scannable isPtr (False, VZero) iter of
                          ((alloc, v), iter1) \<Rightarrow>
                            (True, (if alloc then Set_Indirect dest v else dest), iter1)))))"

definition Select :: "(nat \<Rightarrow> nat \<Rightarrow> nat) \<Rightarrow> iface \<Rightarrow> Iterx \<Rightarrow> error option \<times> iface \<times> Iterx" where
  "Select grow dest iter =
     (case scanAll grow dest iter of
        (ok, dest1, iter1) \<Rightarrow>
          (case Close iter1 of
             (e, iter2) \<Rightarrow> (err iter2, dest1, iter2)))"

section \<open>Notions the properties are stated with\<close>

text \<open>
  The errors that report a destination of the wrong shape: not a pointer, a nil pointer,
  not a pointer to the expected kind, not a struct.
\<close>

fun invalid_destination :: "error \<Rightarrow> bool" where
  "invalid_destination (ExpectedPointer t) = True"
| "invalid_destination ExpectedPointerGotNil = True"
| "invalid_destination (BaseTypeError expected got) = True"
| "invalid_destination MustPassPointer = True"
| "invalid_destination ArgumentNotStruct = True"
| "invalid_destination e = False"

text \<open>
  Successive calls of \<open>StructScan\<close> on one binder, one for each destination of the list,
  as the loop of \<^verbatim>\<open>TestPaging\<close> makes them: the binder after the calls, when every call
  returned.
\<close>

fun StructScans :: "iface list \<Rightarrow> Iterx \<Rightarrow> Iterx option" where
  "StructScans [] iter = Some iter"
| "StructScans (dest # dests) iter =
     (case StructScan dest iter of
        None \<Rightarrow> None
      | Some (ok, dest1, iter1) \<Rightarrow> StructScans dests iter1)"

text \<open>
  The plan the resolver gives for the struct type behind the pointer \<open>dest\<close> and the
  columns of the cursor (\<open>TraversalsByName_plan\<close> below), and the mapper after one call of
  the resolver.
\<close>

definition traversal_plan :: "iface \<Rightarrow> Iterx \<Rightarrow> nat list list" where
  "traversal_plan dest iter =
     map (\<lambda>name. case map_of (Names (TypeMap (Mapper iter) (Deref (Value_Type dest)))) name of
                    None \<Rightarrow> [] | Some ix \<Rightarrow> ix)
         (columnNames (Columns (Iter iter)))"

definition resolver_called :: "Mapper \<Rightarrow> Mapper" where
  "resolver_called m = m\<lparr>traversal_calls := Suc (traversal_calls m)\<rparr>"

text \<open>The binder once the resolver has answered for \<open>dest\<close>: the plan is cached.\<close>

definition planned :: "iface \<Rightarrow> Iterx \<Rightarrow> Iterx" where
  "planned dest iter =
     iter\<lparr>Mapper := resolver_called (Mapper iter), iter_fields := traversal_plan dest iter\<rparr>"

text \<open>
  The row count the cursor reports once its next row has been scanned: the length of the
  page that holds that row. It is the hint the loop of \<open>scanAll\<close> reads when it allocates.
\<close>

definition first_row_hint :: "Iter \<Rightarrow> nat" where
  "first_row_hint it = NumRows (snd (snd (Iter_Scan (length (Columns it)) it)))"

text \<open>
  The element the loop appends for a row with the given cells: what the scan of the row
  leaves in a fresh destination (through the slots \<open>vals\<close> when the row is scanned field by
  field), or the pointer to it. \<open>select_elem\<close> is that element for the destination of
  \<open>Select\<close>.
\<close>

definition row_elem :: "bool \<Rightarrow> bool \<Rightarrow> gotype \<Rightarrow> slot list \<Rightarrow> cell list \<Rightarrow> val" where
  "row_elem scannable isPtr base vals cells =
     (let vp = (if scannable then store_single cells (New base)
                else store_dest vals cells (New base))
      in if isPtr then Pointer vp else Indirect vp)"

definition select_elem :: "iface \<Rightarrow> Iterx \<Rightarrow> slot list \<Rightarrow> cell list \<Rightarrow> val" where
  "select_elem dest iter vals cells =
     (let slice = Deref (Value_Type dest);
          isPtr = (Kind (Elem slice) = Ptr);
          base = Deref (Elem slice)
      in row_elem (scannable_verdict iter base = Inr True) isPtr base vals cells)"

text \<open>A started binder whose value buffer already holds the slots of its plan.\<close>

definition settled :: "gotype \<Rightarrow> Iterx \<Rightarrow> bool" where
  "settled base iter \<longleftrightarrow>
     started iter \<and> fieldsByTraversal (New base) (iter_fields iter) (iter_values iter)
                     = Inr (iter_values iter)"

section \<open>The types and tables of the tests\<close>

text \<open>
  \<^verbatim>\<open>FullName\<close> (with \<^verbatim>\<open>UnmarshalCQL\<close> on its pointer), \<^verbatim>\<open>FullNameUDT\<close> (with
  \<^verbatim>\<open>UnmarshalUDT\<close>), \<^verbatim>\<open>UnsafeTable\<close> and a struct without fields, as \<^verbatim>\<open>iterx_test.go\<close>
  declares them, and a mapper that resolves their fields by snake-case name.
\<close>

definition FullName :: gotype where
  "FullName = Defined ''FullName'' [unmarshallerInterface]
                (StructType ''struct { FirstName string; LastName string }'')"

definition FullNameUDT :: gotype where
  "FullNameUDT = Defined ''FullNameUDT'' [udtUnmarshallerInterface]
                   (StructType ''struct { FirstName string; LastName string }'')"

definition UnsafeTable :: gotype where
  "UnsafeTable = Defined ''UnsafeTable'' [] (StructType ''struct { Testtext string }'')"

definition EmptyStruct :: gotype where
  "EmptyStruct = StructType ''struct {}''"

definition DefaultMapper :: Mapper where
  "DefaultMapper =
     \<lparr>TypeMap = (\<lambda>t.
        if t = FullName \<or> t = FullNameUDT then
          \<lparr>Index = [[0], [1]], Names = [(''first_name'', [0]), (''last_name'', [1])]\<rparr>
        else if t = UnsafeTable then \<lparr>Index = [[0]], Names = [(''testtext'', [0])]\<rparr>
        else \<lparr>Index = [], Names = []\<rparr>),
      traversal_calls = 0\<rparr>"

definition column :: "string \<Rightarrow> ColumnInfo" where
  "column n = \<lparr>Keyspace = ''gocqlx_test'', Table = ''t'', Name = n\<rparr>"

text \<open>
  A fresh cursor over one page of rows, a cursor whose query failed, and a fresh Iterx
  over a cursor.
\<close>

definition cursor :: "string list \<Rightarrow> row list \<Rightarrow> Iter" where
  "cursor names rows =
     \<lparr>iter_err = None, pos = 0, meta_columns = map column names, page = rows,
      next_pages = [], closed = False\<rparr>"

definition failing_cursor :: "string list \<Rightarrow> Iter" where
  "failing_cursor names = (cursor names [])\<lparr>iter_err := Some ''unavailable''\<rparr>"

definition fresh_iterx :: "Iter \<Rightarrow> Iterx" where
  "fresh_iterx it =
     \<lparr>Iter = it, Mapper = DefaultMapper, unsafe = False, structOnly = False, started = False,
      err = None, iter_fields = [], iter_values = []\<rparr>"

definition nil_UnsafeTable :: iface where
  "nil_UnsafeTable = Iface (PtrTo UnsafeTable) None"

definition unsafe_table :: Iter where
  "unsafe_table = cursor [''testtext'', ''testtextunbound''] [Row [''test'', ''test'']]"

definition paging_cursor :: Iter where
  "paging_cursor = (cursor [''testtext''] [Row [''a''], Row [''b'']])\<lparr>next_pages := [[Row [''c'']]]\<rparr>"

definition broken_cursor :: Iter where
  "broken_cursor =
     cursor [''testtext''] [Row [''a''], Row [''b''], BadRow [] ''cannot unmarshal'', Row [''c'']]"

definition ptr :: "gotype \<Rightarrow> iface" where
  "ptr t = Iface (PtrTo t) (Some VZero)"

definition double :: "nat \<Rightarrow> nat \<Rightarrow> nat" where
  "double c n = max (2 * c) n"

section \<open>Facts about the cursor\<close>

lemma Iter_Scan_remaining:
  "Iter_Scan n it = (True, cells, it1) \<Longrightarrow> length (remaining it1) < length (remaining it)"
proof (induction n it rule: Iter_Scan.induct)
  case (1 n it)
  show ?case
  proof (cases "iter_err it = None \<and> length (page it) \<le> pos it")
    case True
    then obtain p ps where ps: "next_pages it = p # ps"
      using "1.prems" by (cases "next_pages it") (auto simp: Iter_Scan.simps [of n it])
    from True ps "1.prems"
    have "Iter_Scan n (it\<lparr>pos := 0, page := p, next_pages := ps\<rparr>) = (True, cells, it1)"
      by (simp add: Iter_Scan.simps [of n it])
    with "1.IH" True ps
    have "length (remaining it1) < length (remaining (it\<lparr>pos := 0, page := p, next_pages := ps\<rparr>))"
      by simp
    with True ps show ?thesis by (simp add: remaining_def)
  next
    case False
    with "1.prems" show ?thesis
      by (auto simp: remaining_def Iter_Scan.simps [of n it] split: if_splits row.splits)
  qed
qed

lemma Scan_remaining:
  "Scan dest iter = (True, dest1, iter1) \<Longrightarrow>
   length (remaining (Iter iter1)) < length (remaining (Iter iter))"
  by (auto simp: Scan_def split: prod.splits dest: Iter_Scan_remaining)

lemma start_Iter: "start dest iter = Some (Inr iter1) \<Longrightarrow> Iter iter1 = Iter iter"
  by (auto simp: start_def Let_def split: prod.splits option.splits if_splits)

lemma StructScan_remaining:
  "StructScan dest iter = Some (True, dest1, iter1) \<Longrightarrow>
   length (remaining (Iter iter1)) < length (remaining (Iter iter))"
  by (auto simp: StructScan_def split: if_splits option.splits sum.splits prod.splits
           dest!: Iter_Scan_remaining start_Iter)

lemma call_StructScan_remaining:
  "call_StructScan dest iter = (True, dest1, iter1) \<Longrightarrow>
   length (remaining (Iter iter1)) < length (remaining (Iter iter))"
  by (auto simp: call_StructScan_def split: option.splits dest: StructScan_remaining)

lemma remaining_switch:
  "length (page it) \<le> pos it \<Longrightarrow> next_pages it = p # ps \<Longrightarrow>
   remaining (it\<lparr>pos := 0, page := p, next_pages := ps\<rparr>) = remaining it"
  by (simp add: remaining_def)

lemma remaining_here:
  "pos it < length (page it) \<Longrightarrow>
   remaining it = page it ! pos it # remaining (it\<lparr>pos := Suc (pos it)\<rparr>)"
  by (simp add: remaining_def Cons_nth_drop_Suc)

lemma Iter_Scan_switch:
  "iter_err it = None \<Longrightarrow> length (page it) \<le> pos it \<Longrightarrow> next_pages it = p # ps \<Longrightarrow>
   Iter_Scan n it = Iter_Scan n (it\<lparr>pos := 0, page := p, next_pages := ps\<rparr>)"
  by (simp add: Iter_Scan.simps [of n it])

lemma Iter_Scan_here:
  "iter_err it = None \<Longrightarrow> pos it < length (page it) \<Longrightarrow>
   Iter_Scan (length (meta_columns it)) it =
     (case page it ! pos it of
        Row cells \<Rightarrow> (True, cells, it\<lparr>pos := Suc (pos it)\<rparr>)
      | BadRow cells msg \<Rightarrow> (False, cells, it\<lparr>iter_err := Some msg\<rparr>))"
  by (simp add: Iter_Scan.simps [of _ it])

lemma Iter_Scan_exhausted:
  "iter_err it = None \<Longrightarrow> remaining it = [] \<Longrightarrow>
   \<exists>it1. Iter_Scan n it = (False, [], it1) \<and> iter_err it1 = None \<and> remaining it1 = []
         \<and> (pos it = 0 \<longrightarrow> NumRows it1 = 0)"
proof (induction n it rule: Iter_Scan.induct)
  case (1 n it)
  show ?case
  proof (cases "next_pages it")
    case Nil
    with "1.prems" show ?thesis
      by (auto simp: Iter_Scan.simps [of n it] remaining_def NumRows_def)
  next
    case (Cons p ps)
    from "1.prems" have le: "length (page it) \<le> pos it" by (simp add: remaining_def)
    from le Cons "1.prems" "1.IH" [OF _ le Cons] show ?thesis
      by (auto simp: Iter_Scan_switch [of it p ps] remaining_switch)
  qed
qed

lemma Iter_Scan_ok:
  "Iter_Scan n it = (True, cells, it1) \<Longrightarrow>
   0 < NumRows it1 \<and> iter_err it1 = None \<and> iter_err it = None
   \<and> remaining it = Row cells # remaining it1 \<and> n = length (meta_columns it)"
proof (induction n it rule: Iter_Scan.induct)
  case (1 n it)
  show ?case
  proof (cases "iter_err it = None \<and> length (page it) \<le> pos it")
    case True
    with "1.prems" obtain p ps where ps: "next_pages it = p # ps"
      by (cases "next_pages it") (auto simp: Iter_Scan.simps [of n it])
    with True "1.prems" "1.IH" [OF _ _ ps] show ?thesis
      by (simp add: Iter_Scan.simps [of n it] remaining_switch)
  next
    case False
    with "1.prems" show ?thesis
      by (auto simp: Iter_Scan.simps [of n it] remaining_here NumRows_def
          split: if_splits row.splits)
  qed
qed


section \<open>Facts about the errors a scan records\<close>

lemma Close_eq:
  "Close iter = (e, iter2) \<Longrightarrow>
     iter2 = iter\<lparr>Iter := (Iter iter)\<lparr>closed := True\<rparr>,
                  err := (case err iter of Some x \<Rightarrow> Some x
                          | None \<Rightarrow> map_option DriverError (iter_err (Iter iter)))\<rparr>
     \<and> e = err iter2"
  by (auto simp: Close_def Iter_Close_def Let_def split: option.splits)


text \<open>
  \<open>StructScan\<close> panics exactly when an unstarted binder is given a pointer to something
  that is no struct. \<open>scanAny\<close> and the loop of \<open>scanAll\<close> call it only when the base type
  is not scannable, which makes it a struct: their calls return.
\<close>

lemma start_None: "start dest iter = None \<longleftrightarrow> Kind (Deref (Value_Type dest)) \<noteq> Struct"
  by (auto simp: start_def TraversalsByName_def Let_def split: option.splits prod.splits)

lemma StructScan_None:
  "StructScan dest iter = None \<longleftrightarrow>
     ValueOf_Kind dest = Ptr \<and> \<not> started iter \<and> Kind (Deref (Value_Type dest)) \<noteq> Struct"
  using start_None [of dest iter]
  by (auto simp: StructScan_def split: option.splits sum.splits prod.splits)

lemma call_StructScan_returns:
  "Kind (Deref (Value_Type dest)) = Struct \<Longrightarrow>
   StructScan dest iter = Some (call_StructScan dest iter)"
  using StructScan_None [of dest iter] by (auto simp: call_StructScan_def split: option.splits)

lemma verdict_False_Struct: "scannable_verdict iter base = Inr False \<Longrightarrow> Kind base = Struct"
  by (auto simp: scannable_verdict_def isScannable_def Let_def split: if_splits)

lemma scanAny_StructScan_returns:
  "scannable_verdict iter (Deref (Value_Type dest)) = Inr False \<Longrightarrow>
   StructScan dest iter = Some (call_StructScan dest iter)"
  by (rule call_StructScan_returns) (rule verdict_False_Struct)

lemma scanAll_StructScan_returns:
  "scannable_verdict iter base = Inr False \<Longrightarrow>
   StructScan (New base) iter1 = Some (call_StructScan (New base) iter1)"
  by (rule call_StructScan_returns) (simp add: New_def Deref_def verdict_False_Struct)

lemma scanAny_StructScan:
  "ValueOf_Kind dest = Ptr \<Longrightarrow> \<not> IsNil dest \<Longrightarrow>
   scannable_verdict iter (Deref (Value_Type dest)) = Inr False \<Longrightarrow>
   StructScan dest iter = Some (scanAny dest iter)"
  by (simp add: scanAny_def Let_def scanAny_StructScan_returns)

lemma start_Inr_err: "start dest iter = Some (Inr iter1) \<Longrightarrow> err iter1 = err iter"
  by (auto simp: start_def Let_def split: prod.splits option.splits if_splits)





text \<open>One turn of the loop of \<open>scanAll\<close>, and induction over its turns.\<close>

lemma scanAll_loop_stop:
  "(if \<not> scannable then call_StructScan (New base) iter else Scan (New base) iter) = (False, vp, iter1)
   \<Longrightarrow> scanAll_loop grow base scannable isPtr (alloc, v) iter = ((alloc, v), iter1)"
  by (simp add: scanAll_loop.simps [of grow base scannable isPtr alloc v iter])

lemma scanAll_loop_continue:
  "(if \<not> scannable then call_StructScan (New base) iter else Scan (New base) iter) = (True, vp, iter1)
   \<Longrightarrow> scanAll_loop grow base scannable isPtr (alloc, v) iter =
       scanAll_loop grow base scannable isPtr
         (True, Append grow (if \<not> alloc then MakeSlice 0 (NumRows (Iter iter1)) else v)
                  (if isPtr then Pointer vp else Indirect vp)) iter1"
  by (simp add: scanAll_loop.simps [of grow base scannable isPtr alloc v iter] Let_def)

lemma scanAll_loop_induct [case_names turn]:
  assumes "\<And>alloc v iter.
     (\<And>vp iter1.
        (if \<not> scannable then call_StructScan (New base) iter else Scan (New base) iter) = (True, vp, iter1)
        \<Longrightarrow> P (True, Append grow (if \<not> alloc then MakeSlice 0 (NumRows (Iter iter1)) else v)
                       (if isPtr then Pointer vp else Indirect vp)) iter1)
     \<Longrightarrow> P (alloc, v) iter"
  shows "P acc iter"
proof (induction "length (remaining (Iter iter))" arbitrary: acc iter rule: less_induct)
  case less
  obtain alloc v where acc: "acc = (alloc, v)" by (cases acc)
  show ?case
    unfolding acc
  proof (rule assms)
    fix vp iter1
    assume "(if \<not> scannable then call_StructScan (New base) iter else Scan (New base) iter)
            = (True, vp, iter1)"
    then have "length (remaining (Iter iter1)) < length (remaining (Iter iter))"
      by (auto split: if_splits dest: call_StructScan_remaining Scan_remaining)
    then show "P (True, Append grow (if \<not> alloc then MakeSlice 0 (NumRows (Iter iter1)) else v)
                       (if isPtr then Pointer vp else Indirect vp)) iter1"
      by (rule less)
  qed
qed



section \<open>Facts about scanning and the rows of the cursor\<close>





lemma Scan_exhausted:
  "iter_err (Iter iter) = None \<Longrightarrow> remaining (Iter iter) = [] \<Longrightarrow>
   \<exists>iter1. Scan dest iter = (False, dest, iter1) \<and> iter_err (Iter iter1) = None
            \<and> remaining (Iter iter1) = [] \<and> err iter1 = err iter"
  using Iter_Scan_exhausted [of "Iter iter" 1]
  by (cases dest) (auto simp: Scan_def)

lemma start_Inr_started: "start dest iter = Some (Inr iter1) \<Longrightarrow> started iter1"
  by (auto simp: start_def Let_def split: prod.splits option.splits if_splits)

lemma StructScan_cases [case_names reject scan panic]:
  obtains
    (reject) iter1 where
      "StructScan dest iter = Some (False, dest, iter1)" "Iter iter1 = Iter iter"
      "err iter1 \<noteq> None"
  | (scan) iter1 vals ok cells it where
      "StructScan dest iter =
         Some (ok, store_dest vals cells dest, iter1\<lparr>Iter := it, iter_values := vals\<rparr>)"
      "Iter_Scan (length vals) (Iter iter) = (ok, cells, it)"
      "fieldsByTraversal dest (iter_fields iter1) (iter_values iter1) = Inr vals"
      "Iter iter1 = Iter iter" "err iter1 = err iter"
      "if started iter then iter1 = iter else start dest iter = Some (Inr iter1)"
  | (panic) "StructScan dest iter = None"
proof (cases "ValueOf_Kind dest \<noteq> Ptr")
  case True
  show ?thesis
    by (rule reject [of "iter\<lparr>err := Some MustPassPointer\<rparr>"])
      (use True in \<open>simp_all add: StructScan_def\<close>)
next
  case ptr: False
  show ?thesis
  proof (cases "if \<not> started iter then start dest iter else Some (Inr iter)")
    case None
    with ptr have "StructScan dest iter = None" by (simp add: StructScan_def)
    then show ?thesis by (rule panic)
  next
    case (Some r)
    show ?thesis
    proof (cases r)
      case (Inl iter1)
      with Some have "start dest iter = Some (Inl iter1)" by (auto split: if_splits)
      then have "Iter iter1 = Iter iter \<and> err iter1 \<noteq> None"
        by (auto simp: start_def Let_def split: prod.splits option.splits if_splits)
      with Inl Some ptr show ?thesis
        by (intro reject [of iter1]) (simp_all add: StructScan_def)
    next
      case (Inr iter1)
      with Some have i1: "Iter iter1 = Iter iter" "err iter1 = err iter"
        "if started iter then iter1 = iter else start dest iter = Some (Inr iter1)"
        by (auto split: if_splits dest: start_Iter start_Inr_err)
      show ?thesis
      proof (cases "fieldsByTraversal dest (iter_fields iter1) (iter_values iter1)")
        case (Inl e)
        with Inr Some ptr i1 show ?thesis
          by (intro reject [of "iter1\<lparr>err := Some e\<rparr>"]) (simp_all add: StructScan_def)
      next
        case vals: (Inr vals)
        obtain ok cells it where sc: "Iter_Scan (length vals) (Iter iter) = (ok, cells, it)"
          by (metis prod_cases3)
        with Inr Some ptr i1 vals show ?thesis
          by (intro scan [of ok vals cells it iter1]) (simp_all add: StructScan_def)
      qed
    qed
  qed
qed

lemma StructScan_exhausted:
  assumes "iter_err (Iter iter) = None" and "remaining (Iter iter) = []"
  shows "\<exists>iter1. call_StructScan dest iter = (False, dest, iter1)
            \<and> iter_err (Iter iter1) = None \<and> remaining (Iter iter1) = []"
proof (cases rule: StructScan_cases [where dest = dest and iter = iter])
  case (reject iter1)
  with assms show ?thesis by (simp add: call_StructScan_def)
next
  case (scan iter1 vals ok cells it)
  from Iter_Scan_exhausted [OF assms, of "length vals"] scan(2)
  have "ok = False" "cells = []" "iter_err it = None" "remaining it = []" by auto
  with scan(1) show ?thesis
    by (cases "(vals, cells, dest)" rule: store_dest.cases) (auto simp: call_StructScan_def)
next
  case panic
  with assms show ?thesis by (simp add: call_StructScan_def)
qed

lemma scanAll_cases [case_names invalid loop]:
  obtains
    (invalid) e where
      "scanAll grow dest iter = (False, dest, iter\<lparr>err := Some e\<rparr>)"
  | (loop) slice scannable alloc v iter1 where
      "ValueOf_Kind dest = Ptr" "\<not> IsNil dest"
      "baseType (Value_Type dest) Slice = Inr slice"
      "scannable_verdict iter (Deref (Elem slice)) = Inr scannable"
      "\<not> (scannable \<and> 1 < length (Columns (Iter iter)))"
      "scanAll_loop grow (Deref (Elem slice)) scannable (Kind (Elem slice) = Ptr) (False, VZero) iter
         = ((alloc, v), iter1)"
      "scanAll grow dest iter = (True, if alloc then Set_Indirect dest v else dest, iter1)"
proof (cases "ValueOf_Kind dest = Ptr \<and> \<not> IsNil dest")
  case False
  show ?thesis
  proof (cases "ValueOf_Kind dest = Ptr")
    case True
    with False show ?thesis
      by (intro invalid [of ExpectedPointerGotNil]) (simp add: scanAll_def)
  next
    case False
    then show ?thesis
      by (intro invalid [of "ExpectedPointer (TypeOf dest)"]) (simp add: scanAll_def)
  qed
next
  case ok: True
  show ?thesis
  proof (cases "baseType (Value_Type dest) Slice")
    case (Inl e)
    with ok show ?thesis by (auto simp: scanAll_def intro: invalid)
  next
    case sl: (Inr slice)
    show ?thesis
    proof (cases "scannable_verdict iter (Deref (Elem slice))")
      case (Inl e)
      with ok sl show ?thesis by (auto simp: scanAll_def Let_def intro: invalid)
    next
      case sv: (Inr scannable)
      show ?thesis
      proof (cases "scannable \<and> 1 < length (Columns (Iter iter))")
        case True
        with ok sl sv show ?thesis by (auto simp: scanAll_def Let_def intro: invalid)
      next
        case cc: False
        obtain alloc v iter1 where l: "scanAll_loop grow (Deref (Elem slice)) scannable
            (Kind (Elem slice) = Ptr) (False, VZero) iter = ((alloc, v), iter1)"
          by (metis surj_pair)
        show ?thesis
        proof (rule loop)
          show "ValueOf_Kind dest = Ptr" "\<not> IsNil dest" using ok by simp_all
          show "baseType (Value_Type dest) Slice = Inr slice" by (rule sl)
          show "scannable_verdict iter (Deref (Elem slice)) = Inr scannable" by (rule sv)
          show "\<not> (scannable \<and> 1 < length (Columns (Iter iter)))" by (rule cc)
          show "scanAll_loop grow (Deref (Elem slice)) scannable (Kind (Elem slice) = Ptr)
            (False, VZero) iter = ((alloc, v), iter1)" by (rule l)
          show "scanAll grow dest iter = (True, if alloc then Set_Indirect dest v else dest, iter1)"
            using ok sl sv cc l by (simp add: scanAll_def Let_def)
        qed
      qed
    qed
  qed
qed




section \<open>The classifier and the mode setters\<close>

lemmas fixture_defs =
  FullName_def FullNameUDT_def UnsafeTable_def EmptyStruct_def DefaultMapper_def column_def
  cursor_def failing_cursor_def fresh_iterx_def ptr_def nil_UnsafeTable_def unsafe_table_def paging_cursor_def broken_cursor_def

text \<open>
  C3. \<open>isScannable\<close> answers true for a type \<open>t\<close> exactly when a pointer to \<open>t\<close>
  implements \<^verbatim>\<open>gocql.Unmarshaler\<close> or \<^verbatim>\<open>gocql.UDTUnmarshaler\<close>, or \<open>t\<close> is not a struct, or
  \<open>t\<close> is a struct for which the mapper reports no mapped field; the answer is the same
  for either value of the \<^verbatim>\<open>structOnly\<close> flag.
\<close>

theorem isScannable_iff:
  "(isScannable iter t \<longleftrightarrow>
      (Implements (PtrTo t) unmarshallerInterface \<or> Implements (PtrTo t) udtUnmarshallerInterface)
      \<or> Kind t \<noteq> Struct
      \<or> (Kind t = Struct \<and> length (Index (TypeMap (Mapper iter) t)) = 0))
   \<and> isScannable (iter\<lparr>structOnly := b\<rparr>) t = isScannable iter t"
  by (auto simp: isScannable_def)

theorem isScannable_iff_witness:
  "isScannable (fresh_iterx (cursor [] [])) FullName
   \<and> isScannable (fresh_iterx (cursor [] [])) (OtherType ''int'')
   \<and> isScannable (fresh_iterx (cursor [] [])) EmptyStruct
   \<and> \<not> isScannable (fresh_iterx (cursor [] [])) UnsafeTable"
  using isScannable_iff [of "fresh_iterx (cursor [] [])" FullName True]
    isScannable_iff [of "fresh_iterx (cursor [] [])" "OtherType ''int''" True]
    isScannable_iff [of "fresh_iterx (cursor [] [])" EmptyStruct True]
    isScannable_iff [of "fresh_iterx (cursor [] [])" UnsafeTable True]
  by (simp add: fixture_defs)

text \<open>
  C10. \<open>Unsafe\<close> and \<open>StructOnly\<close> each set their own flag and return the receiver with
  every other field as it was: the cursor, the mapper, the other flag, \<open>started\<close>,
  \<open>err\<close>, the cached traversals and the value buffer. So they commute, and \<open>Get\<close> and
  \<open>Select\<close> see the same binder whichever was called first.
\<close>

theorem setters_frame:
  "unsafe (Unsafe iter) \<and> structOnly (Unsafe iter) = structOnly iter
   \<and> started (Unsafe iter) = started iter \<and> err (Unsafe iter) = err iter
   \<and> iter_fields (Unsafe iter) = iter_fields iter \<and> iter_values (Unsafe iter) = iter_values iter
   \<and> Iter (Unsafe iter) = Iter iter \<and> Mapper (Unsafe iter) = Mapper iter
   \<and> structOnly (StructOnly iter) \<and> unsafe (StructOnly iter) = unsafe iter
   \<and> started (StructOnly iter) = started iter \<and> err (StructOnly iter) = err iter
   \<and> iter_fields (StructOnly iter) = iter_fields iter
   \<and> iter_values (StructOnly iter) = iter_values iter
   \<and> Iter (StructOnly iter) = Iter iter \<and> Mapper (StructOnly iter) = Mapper iter
   \<and> Unsafe iter = iter\<lparr>unsafe := True\<rparr> \<and> StructOnly iter = iter\<lparr>structOnly := True\<rparr>
   \<and> StructOnly (Unsafe iter) = Unsafe (StructOnly iter)
   \<and> Get dest (StructOnly (Unsafe iter)) = Get dest (Unsafe (StructOnly iter))
   \<and> Select grow dest (StructOnly (Unsafe iter)) = Select grow dest (Unsafe (StructOnly iter))"
proof -
  have comm: "StructOnly (Unsafe iter) = Unsafe (StructOnly iter)"
    by (simp add: Unsafe_def StructOnly_def)
  have frame: "unsafe (Unsafe iter) \<and> structOnly (Unsafe iter) = structOnly iter
   \<and> started (Unsafe iter) = started iter \<and> err (Unsafe iter) = err iter
   \<and> iter_fields (Unsafe iter) = iter_fields iter \<and> iter_values (Unsafe iter) = iter_values iter
   \<and> Iter (Unsafe iter) = Iter iter \<and> Mapper (Unsafe iter) = Mapper iter
   \<and> structOnly (StructOnly iter) \<and> unsafe (StructOnly iter) = unsafe iter
   \<and> started (StructOnly iter) = started iter \<and> err (StructOnly iter) = err iter
   \<and> iter_fields (StructOnly iter) = iter_fields iter
   \<and> iter_values (StructOnly iter) = iter_values iter
   \<and> Iter (StructOnly iter) = Iter iter \<and> Mapper (StructOnly iter) = Mapper iter
   \<and> Unsafe iter = iter\<lparr>unsafe := True\<rparr> \<and> StructOnly iter = iter\<lparr>structOnly := True\<rparr>"
    by (simp add: Unsafe_def StructOnly_def)
  from comm have "Get dest (StructOnly (Unsafe iter)) = Get dest (Unsafe (StructOnly iter))"
    and "Select grow dest (StructOnly (Unsafe iter)) = Select grow dest (Unsafe (StructOnly iter))"
    by (rule arg_cong)+
  with comm frame show ?thesis by blast
qed

theorem setters_frame_witness:
  "unsafe (Unsafe (fresh_iterx (cursor [] []))) \<and> structOnly (StructOnly (fresh_iterx (cursor [] [])))
   \<and> \<not> structOnly (Unsafe (fresh_iterx (cursor [] [])))
   \<and> \<not> unsafe (StructOnly (fresh_iterx (cursor [] [])))
   \<and> unsafe (StructOnly (Unsafe (fresh_iterx (cursor [] []))))
   \<and> structOnly (StructOnly (Unsafe (fresh_iterx (cursor [] []))))"
  using setters_frame [of "fresh_iterx (cursor [] [])"]
    setters_frame [of "Unsafe (fresh_iterx (cursor [] []))"]
  by (simp add: fixture_defs)

section \<open>Get and Select: closing the cursor, and which error is returned\<close>

lemmas eval_defs =
  Get_def Select_def scanAny_def scanAll_def scanAll_loop.simps call_StructScan_def StructScan_def
  start_def Scan_def
  Close_def Iter_Close_def checkErrAndNotFound_def scannable_verdict_def isScannable_def
  structOnlyError_def baseType_def Deref_def TraversalsByName_def fieldsByTraversal_def slot_of_def
  columnNames_def Columns_def NumRows_def Iter_Scan.simps New_def MakeSlice_def Unsafe_def
  StructOnly_def Let_def

text \<open>
  C1. \<open>Get\<close> closes the cursor after \<open>scanAny\<close>, whatever \<open>scanAny\<close> did: the cursor of
  the binder after \<open>Get\<close> is the cursor \<open>scanAny\<close> left, closed. An error that \<open>scanAny\<close>
  left on the binder is still there after \<open>Close\<close> and is what \<open>Get\<close> returns; the error of
  the cursor is recorded, and returned, only when the binder held none. \<open>Close\<close> never
  replaces an error the binder holds.
\<close>

theorem Get_closes_and_prior_error_wins:
  assumes "scanAny dest iter = (ok, dest1, iter1)" and "Get dest iter = (r, dest2, iter2)"
  shows "closed (Iter iter2)
       \<and> Iter iter2 = (Iter iter1)\<lparr>closed := True\<rparr>
       \<and> (\<forall>e. err iter1 = Some e \<longrightarrow> err iter2 = Some e \<and> r = Some e)
       \<and> (err iter1 = None \<longrightarrow> err iter2 = map_option DriverError (iter_err (Iter iter1)))
       \<and> (\<forall>m. err iter1 = None \<and> iter_err (Iter iter1) = Some m \<longrightarrow> r = Some (DriverError m))
       \<and> (\<forall>e. err iter = Some e \<longrightarrow> err (snd (Close iter)) = Some e)"
  using assms
  by (auto simp: Get_def Close_def Iter_Close_def Let_def checkErrAndNotFound_def)

theorem Get_closes_and_prior_error_wins_witness:
  "fst (Get (ptr FullName) (fresh_iterx (failing_cursor [''first_name'', ''last_name''])))
     = Some (ColumnCount Struct 2)
   \<and> closed (Iter (snd (snd (Get (ptr FullName)
        (fresh_iterx (failing_cursor [''first_name'', ''last_name''])))))) 
   \<and> fst (Get (ptr FullName) (fresh_iterx (failing_cursor [''testfullname''])))
     = Some (DriverError ''unavailable'')
   \<and> closed (Iter (snd (snd (Get (ptr FullName) (fresh_iterx (failing_cursor [''testfullname''])))))) "
proof -
  let ?two = "fresh_iterx (failing_cursor [''first_name'', ''last_name''])"
  let ?one = "fresh_iterx (failing_cursor [''testfullname''])"
  have s2: "scanAny (ptr FullName) ?two
      = (False, ptr FullName, ?two\<lparr>err := Some (ColumnCount Struct 2)\<rparr>)"
    by (simp add: eval_defs fixture_defs)
  have s1: "scanAny (ptr FullName) ?one = (False, ptr FullName, ?one)"
    by (simp add: eval_defs fixture_defs)
  have g2: "Get (ptr FullName) ?two = (fst (Get (ptr FullName) ?two),
      fst (snd (Get (ptr FullName) ?two)), snd (snd (Get (ptr FullName) ?two)))"
    by simp
  have g1: "Get (ptr FullName) ?one = (fst (Get (ptr FullName) ?one),
      fst (snd (Get (ptr FullName) ?one)), snd (snd (Get (ptr FullName) ?one)))"
    by simp
  from Get_closes_and_prior_error_wins [OF s2 g2] Get_closes_and_prior_error_wins [OF s1 g1]
  show ?thesis
    by (simp add: fixture_defs)
qed



section \<open>The struct-only override\<close>

lemma not_scannable_Struct: "\<not> isScannable iter base \<Longrightarrow> Kind base = Struct"
  by (auto simp: isScannable_def split: if_splits)

lemma scannable_verdict_eq:
  "scannable_verdict iter base =
     (if structOnly iter then
        (if Kind base = Struct then Inr False else Inl (StructOnlyMisuse base))
      else Inr (isScannable iter base))"
  using not_scannable_Struct [of iter base]
  by (auto simp: scannable_verdict_def structOnlyError_def Let_def)

lemma Get_verdict_error:
  "ValueOf_Kind dest = Ptr \<Longrightarrow> \<not> IsNil dest \<Longrightarrow>
   scannable_verdict iter (Deref (Value_Type dest)) = Inl e \<Longrightarrow>
   Get dest iter = (Some e, dest, iter\<lparr>err := Some e, Iter := (Iter iter)\<lparr>closed := True\<rparr>\<rparr>)"
  by (simp add: Get_def scanAny_def Close_def Iter_Close_def checkErrAndNotFound_def Let_def)

lemma Select_verdict_error:
  "ValueOf_Kind dest = Ptr \<Longrightarrow> \<not> IsNil dest \<Longrightarrow> baseType (Value_Type dest) Slice = Inr slice \<Longrightarrow>
   scannable_verdict iter (Deref (Elem slice)) = Inl e \<Longrightarrow>
   Select grow dest iter = (Some e, dest, iter\<lparr>err := Some e, Iter := (Iter iter)\<lparr>closed := True\<rparr>\<rparr>)"
  by (simp add: Select_def scanAll_def Close_def Iter_Close_def Let_def)

text \<open>
  C4, as stated, fails: with \<^verbatim>\<open>structOnly\<close> set, a struct without mapped fields that has
  neither unmarshal method is scannable (through its zero fields alone) and is overridden
  to record-mapped all the same.
\<close>

theorem structOnly_overrides_every_struct_counterexample:
  "structOnly (StructOnly (fresh_iterx (cursor [''testfullname''] [Row [''John Doe'']])))
   \<and> isScannable (StructOnly (fresh_iterx (cursor [''testfullname''] [Row [''John Doe'']]))) EmptyStruct
   \<and> scannable_verdict (StructOnly (fresh_iterx (cursor [''testfullname''] [Row [''John Doe'']])))
        EmptyStruct = Inr False
   \<and> Kind EmptyStruct = Struct
   \<and> \<not> Implements (PtrTo EmptyStruct) unmarshallerInterface
   \<and> \<not> Implements (PtrTo EmptyStruct) udtUnmarshallerInterface"
  by (simp add: eval_defs fixture_defs)

text \<open>
  C4, amended. With \<^verbatim>\<open>structOnly\<close> set, a scannable base type is overridden to
  record-mapped exactly when it is a struct, whatever made it scannable; the verdict is
  record-mapped for every struct, and the struct-only error naming the type for every
  other type, which is then what \<open>Get\<close> and \<open>Select\<close> return.
\<close>

theorem structOnly_verdict:
  assumes "structOnly iter"
  shows "(isScannable iter base \<and> scannable_verdict iter base = Inr False
            \<longleftrightarrow> isScannable iter base \<and> Kind base = Struct)
       \<and> (scannable_verdict iter base = Inr False \<longleftrightarrow> Kind base = Struct)
       \<and> (scannable_verdict iter base = Inl (StructOnlyMisuse base) \<longleftrightarrow> Kind base \<noteq> Struct)
       \<and> (ValueOf_Kind dest = Ptr \<and> \<not> IsNil dest \<and> Kind (Deref (Value_Type dest)) \<noteq> Struct
            \<longrightarrow> fst (Get dest iter) = Some (StructOnlyMisuse (Deref (Value_Type dest))))
       \<and> (ValueOf_Kind dest = Ptr \<and> \<not> IsNil dest \<and> baseType (Value_Type dest) Slice = Inr slice
            \<and> Kind (Deref (Elem slice)) \<noteq> Struct
            \<longrightarrow> fst (Select grow dest iter) = Some (StructOnlyMisuse (Deref (Elem slice))))"
proof -
  have v: "scannable_verdict iter b =
      (if Kind b = Struct then Inr False else Inl (StructOnlyMisuse b))" for b
    using assms by (simp add: scannable_verdict_eq)
  have g: "ValueOf_Kind dest = Ptr \<and> \<not> IsNil dest \<and> Kind (Deref (Value_Type dest)) \<noteq> Struct
            \<longrightarrow> fst (Get dest iter) = Some (StructOnlyMisuse (Deref (Value_Type dest)))"
    using Get_verdict_error [of dest iter "StructOnlyMisuse (Deref (Value_Type dest))"]
    by (simp add: v)
  have s: "ValueOf_Kind dest = Ptr \<and> \<not> IsNil dest \<and> baseType (Value_Type dest) Slice = Inr slice
            \<and> Kind (Deref (Elem slice)) \<noteq> Struct
            \<longrightarrow> fst (Select grow dest iter) = Some (StructOnlyMisuse (Deref (Elem slice)))"
    using Select_verdict_error [of dest slice iter "StructOnlyMisuse (Deref (Elem slice))" grow]
    by (simp add: v)
  from g s show ?thesis by (simp add: v)
qed

theorem structOnly_verdict_witness:
  "scannable_verdict (StructOnly (fresh_iterx (cursor [''first_name'', ''last_name''] []))) FullName
     = Inr False
   \<and> scannable_verdict (StructOnly (fresh_iterx (cursor [''first_name'', ''last_name''] []))) EmptyStruct
     = Inr False
   \<and> fst (Get (ptr (OtherType ''int'')) (StructOnly (fresh_iterx (cursor [''first_name'', ''last_name''] []))))
     = Some (StructOnlyMisuse (OtherType ''int''))
   \<and> fst (Select double (ptr (SliceOf (OtherType ''int'')))
        (StructOnly (fresh_iterx (cursor [''first_name'', ''last_name''] []))))
     = Some (StructOnlyMisuse (OtherType ''int''))"
proof -
  let ?i = "StructOnly (fresh_iterx (cursor [''first_name'', ''last_name''] []))"
  have so: "structOnly ?i" by (simp add: StructOnly_def)
  from structOnly_verdict [OF so, of FullName "ptr (OtherType ''int'')" "OtherType ''int''" double]
    structOnly_verdict [OF so, of EmptyStruct "ptr (SliceOf (OtherType ''int''))"
      "SliceOf (OtherType ''int'')" double]
  show ?thesis
    by (simp add: fixture_defs baseType_def Deref_def)
qed

section \<open>The column count of a scannable destination\<close>

lemma scannable_verdict_unsafe [simp]:
  "scannable_verdict (iter\<lparr>unsafe := u\<rparr>) base = scannable_verdict iter base"
  by (simp add: scannable_verdict_def isScannable_def)

text \<open>
  C5. For a destination that passes the pointer checks and whose base type ends up
  scannable, a result of more than one column makes \<open>Get\<close> and \<open>Select\<close> return the
  column-count error, whatever the \<^verbatim>\<open>unsafe\<close> flag is: the destination is as before, and the
  cursor is the one given, closed, so no row was scanned.
\<close>

theorem column_count_mismatch:
  assumes "ValueOf_Kind dest = Ptr" and "\<not> IsNil dest" and "1 < length (Columns (Iter iter))"
  shows "(scannable_verdict iter (Deref (Value_Type dest)) = Inr True \<longrightarrow>
            Get dest (iter\<lparr>unsafe := u\<rparr>) =
              (Some (ColumnCount (Kind (Deref (Value_Type dest))) (length (Columns (Iter iter)))),
               dest,
               iter\<lparr>unsafe := u,
                    err := Some (ColumnCount (Kind (Deref (Value_Type dest)))
                                             (length (Columns (Iter iter)))),
                    Iter := (Iter iter)\<lparr>closed := True\<rparr>\<rparr>))
       \<and> (baseType (Value_Type dest) Slice = Inr slice
            \<and> scannable_verdict iter (Deref (Elem slice)) = Inr True \<longrightarrow>
            Select grow dest (iter\<lparr>unsafe := u\<rparr>) =
              (Some (ColumnCount (Kind (Deref (Elem slice))) (length (Columns (Iter iter)))),
               dest,
               iter\<lparr>unsafe := u,
                    err := Some (ColumnCount (Kind (Deref (Elem slice)))
                                             (length (Columns (Iter iter)))),
                    Iter := (Iter iter)\<lparr>closed := True\<rparr>\<rparr>))"
  using assms
  by (simp add: Get_def Select_def scanAny_def scanAll_def Close_def Iter_Close_def
      checkErrAndNotFound_def Let_def)

theorem column_count_mismatch_witness:
  "fst (Get (ptr FullName)
        (fresh_iterx (cursor [''first_name'', ''last_name''] [Row [''John'', ''Doe'']])\<lparr>unsafe := True\<rparr>))
     = Some (ColumnCount Struct 2)
   \<and> fst (Get (ptr FullName)
        (fresh_iterx (cursor [''first_name'', ''last_name''] [Row [''John'', ''Doe'']])\<lparr>unsafe := False\<rparr>))
     = Some (ColumnCount Struct 2)
   \<and> fst (Select double (ptr (SliceOf FullName))
        (fresh_iterx (cursor [''first_name'', ''last_name''] [Row [''John'', ''Doe'']])\<lparr>unsafe := True\<rparr>))
     = Some (ColumnCount Struct 2)
   \<and> pos (Iter (snd (snd (Select double (ptr (SliceOf FullName))
        (fresh_iterx (cursor [''first_name'', ''last_name''] [Row [''John'', ''Doe'']])\<lparr>unsafe := False\<rparr>)))))
     = 0"
proof -
  let ?i = "fresh_iterx (cursor [''first_name'', ''last_name''] [Row [''John'', ''Doe'']])"
  have a: "ValueOf_Kind (ptr FullName) = Ptr" "\<not> IsNil (ptr FullName)"
    "ValueOf_Kind (ptr (SliceOf FullName)) = Ptr" "\<not> IsNil (ptr (SliceOf FullName))"
    "1 < length (Columns (Iter ?i))"
    by (simp_all add: fixture_defs Columns_def)
  from column_count_mismatch [OF a(1,2,5), where u = True and slice = "SliceOf FullName"]
    column_count_mismatch [OF a(1,2,5), where u = False and slice = "SliceOf FullName"]
    column_count_mismatch [OF a(3,4,5), where u = True and slice = "SliceOf FullName"
      and grow = double]
    column_count_mismatch [OF a(3,4,5), where u = False and slice = "SliceOf FullName"
      and grow = double]
  show ?thesis
    by (simp add: fixture_defs Columns_def baseType_def Deref_def scannable_verdict_def
        isScannable_def)
qed

section \<open>The first call of StructScan on a binder, and the calls after it\<close>

lemma missingFields_Some:
  "missingFields ts = Some f \<longleftrightarrow> f < length ts \<and> ts ! f = [] \<and> (\<forall>i<f. ts ! i \<noteq> [])"
proof (induction ts arbitrary: f)
  case Nil
  then show ?case by simp
next
  case (Cons t ts)
  show ?case
  proof (cases "t = []")
    case True
    then show ?thesis by (cases f) auto
  next
    case False
    show ?thesis
    proof (cases f)
      case 0
      with False show ?thesis by auto
    next
      case (Suc g)
      have "(\<forall>i<Suc g. (t # ts) ! i \<noteq> []) \<longleftrightarrow> (\<forall>i<g. ts ! i \<noteq> [])"
        using False by (auto simp: less_Suc_eq_0_disj)
      with False Suc Cons.IH [of g] show ?thesis by auto
    qed
  qed
qed

lemma missingFields_None: "missingFields ts = None \<longleftrightarrow> [] \<notin> set ts"
  by (induction ts) auto

lemma length_columnNames: "length (columnNames cs) = length cs"
  by (simp add: columnNames_def)

lemma length_traversal_plan: "length (traversal_plan dest iter) = length (Columns (Iter iter))"
  by (simp add: traversal_plan_def columnNames_def)

lemma TraversalsByName_plan:
  "Kind (Deref (Value_Type dest)) = Struct \<Longrightarrow>
   TraversalsByName (Mapper iter) (Value_Type dest) (columnNames (Columns (Iter iter)))
     = Some (traversal_plan dest iter, resolver_called (Mapper iter))"
  by (simp add: TraversalsByName_def traversal_plan_def resolver_called_def Let_def)

lemma start_missing:
  assumes "Kind (Deref (Value_Type dest)) = Struct"
    and "\<not> unsafe iter" and "[] \<in> set (traversal_plan dest iter)"
  shows "\<exists>f. f < length (Columns (Iter iter)) \<and> traversal_plan dest iter ! f = []
           \<and> (\<forall>i<f. traversal_plan dest iter ! i \<noteq> [])
           \<and> start dest iter =
               Some (Inl ((planned dest iter)
                 \<lparr>err := Some (MissingDestinationName (columnNames (Columns (Iter iter)) ! f)
                                (TypeOf dest))\<rparr>))"
proof -
  from assms(3) obtain f where f: "missingFields (traversal_plan dest iter) = Some f"
    using missingFields_None [of "traversal_plan dest iter"] by auto
  with assms(2) have "start dest iter =
      Some (Inl ((planned dest iter)
        \<lparr>err := Some (MissingDestinationName (columnNames (Columns (Iter iter)) ! f)
                       (TypeOf dest))\<rparr>))"
    by (simp add: start_def TraversalsByName_plan [OF assms(1)] planned_def Let_def)
  with f show ?thesis
    using missingFields_Some [of "traversal_plan dest iter" f] length_traversal_plan [of dest iter]
    by auto
qed

lemma start_started:
  assumes "Kind (Deref (Value_Type dest)) = Struct"
    and "unsafe iter \<or> [] \<notin> set (traversal_plan dest iter)"
  shows "start dest iter =
           Some (Inr ((planned dest iter)
             \<lparr>iter_values := replicate (length (Columns (Iter iter))) NilSlot,
              started := True\<rparr>))"
proof (cases "unsafe iter")
  case True
  then show ?thesis
    by (simp add: start_def TraversalsByName_plan [OF assms(1)] planned_def Let_def
        length_columnNames)
next
  case False
  with assms(2) have "missingFields (traversal_plan dest iter) = None"
    using missingFields_None [of "traversal_plan dest iter"] by auto
  with False show ?thesis
    by (simp add: start_def TraversalsByName_plan [OF assms(1)] planned_def Let_def
        length_columnNames)
qed

lemma fieldsByTraversal_nil:
  "ValueOf_Kind dest = Ptr \<Longrightarrow> IsNil dest \<Longrightarrow>
   fieldsByTraversal dest fs vs = Inl ArgumentNotStruct"
  by (cases dest) (auto simp: fieldsByTraversal_def)

lemma StructScan_first_missing:
  assumes "ValueOf_Kind dest = Ptr" and "Kind (Deref (Value_Type dest)) = Struct"
    and "\<not> started iter" and "\<not> unsafe iter" and "[] \<in> set (traversal_plan dest iter)"
  shows "\<exists>f. f < length (Columns (Iter iter)) \<and> traversal_plan dest iter ! f = []
           \<and> (\<forall>i<f. traversal_plan dest iter ! i \<noteq> [])
           \<and> StructScan dest iter =
               Some (False, dest, (planned dest iter)
                 \<lparr>err := Some (MissingDestinationName (columnNames (Columns (Iter iter)) ! f)
                                (TypeOf dest))\<rparr>)"
proof -
  from start_missing [OF assms(2,4,5)] obtain f where
    f: "f < length (Columns (Iter iter))" "traversal_plan dest iter ! f = []"
      "\<forall>i<f. traversal_plan dest iter ! i \<noteq> []"
    and s: "start dest iter =
               Some (Inl ((planned dest iter)
                 \<lparr>err := Some (MissingDestinationName (columnNames (Columns (Iter iter)) ! f)
                                (TypeOf dest))\<rparr>))"
    by blast
  from s assms(1,3) have "StructScan dest iter =
               Some (False, dest, (planned dest iter)
                 \<lparr>err := Some (MissingDestinationName (columnNames (Columns (Iter iter)) ! f)
                                (TypeOf dest))\<rparr>)"
    by (simp add: StructScan_def)
  with f show ?thesis by blast
qed

lemma StructScan_first_nil:
  assumes "ValueOf_Kind dest = Ptr" and "IsNil dest"
    and "Kind (Deref (Value_Type dest)) = Struct" and "\<not> started iter"
    and "unsafe iter \<or> [] \<notin> set (traversal_plan dest iter)"
  shows "StructScan dest iter =
           Some (False, dest, (planned dest iter)
             \<lparr>iter_values := replicate (length (Columns (Iter iter))) NilSlot,
              started := True, err := Some ArgumentNotStruct\<rparr>)"
  using assms(1,4) fieldsByTraversal_nil [OF assms(1,2)]
  by (simp add: StructScan_def start_started [OF assms(3,5)])

lemma StructScan_started_nil:
  assumes "ValueOf_Kind dest = Ptr" and "IsNil dest" and "started iter"
  shows "StructScan dest iter = Some (False, dest, iter\<lparr>err := Some ArgumentNotStruct\<rparr>)"
  using assms(1,3) fieldsByTraversal_nil [OF assms(1,2)] by (simp add: StructScan_def)

lemma StructScan_first_started:
  assumes "ValueOf_Kind dest = Ptr" and "Kind (Deref (Value_Type dest)) = Struct"
    and "\<not> started iter" and "unsafe iter \<or> [] \<notin> set (traversal_plan dest iter)"
  shows "\<exists>ok d iter1. StructScan dest iter = Some (ok, d, iter1) \<and> started iter1
           \<and> Mapper iter1 = resolver_called (Mapper iter)
           \<and> iter_fields iter1 = traversal_plan dest iter"
  using assms(1,3)
  by (auto simp: StructScan_def start_started [OF assms(2,4)] planned_def
      split: sum.splits prod.splits)

lemma StructScan_started:
  "started iter \<Longrightarrow>
   \<exists>ok d iter1. StructScan dest iter = Some (ok, d, iter1) \<and> started iter1
      \<and> Mapper iter1 = Mapper iter \<and> iter_fields iter1 = iter_fields iter"
  by (auto simp: StructScan_def split: sum.splits prod.splits)

lemma StructScans_started:
  "started iter \<Longrightarrow>
   \<exists>iterN. StructScans dests iter = Some iterN \<and> started iterN
      \<and> Mapper iterN = Mapper iter \<and> iter_fields iterN = iter_fields iter"
proof (induction dests arbitrary: iter)
  case Nil
  then show ?case by simp
next
  case (Cons dest dests)
  from StructScan_started [OF Cons.prems, of dest] obtain ok d iter1 where
    s: "StructScan dest iter = Some (ok, d, iter1)" "started iter1"
      "Mapper iter1 = Mapper iter" "iter_fields iter1 = iter_fields iter"
    by blast
  from Cons.IH [OF s(2)] s show ?case by simp
qed

section \<open>Destinations that are not a non-nil pointer\<close>

text \<open>
  C6, as stated, fails for a nil pointer given to \<open>StructScan\<close> itself, which tests the
  kind of its destination only: on an unstarted binder in safe mode with an unmapped
  column the call of \<^verbatim>\<open>StructScan((*UnsafeTable)(nil))\<close> fails with the missing-field error,
  not with an error about the destination.
\<close>

theorem StructScan_nil_pointer_counterexample:
  "ValueOf_Kind nil_UnsafeTable = Ptr \<and> IsNil nil_UnsafeTable
   \<and> StructScan nil_UnsafeTable (fresh_iterx unsafe_table)
       = Some (False, nil_UnsafeTable,
               (fresh_iterx unsafe_table)
                 \<lparr>Mapper := DefaultMapper\<lparr>traversal_calls := 1\<rparr>, iter_fields := [[0], []],
                  err := Some (MissingDestinationName ''testtextunbound''
                                 (Some (PtrTo UnsafeTable)))\<rparr>)
   \<and> \<not> invalid_destination (MissingDestinationName ''testtextunbound'' (Some (PtrTo UnsafeTable)))"
  by (simp add: eval_defs fixture_defs)

text \<open>
  C6, amended. \<open>StructScan\<close> rejects a destination that is not a pointer with its
  invalid-destination error and changes nothing else; \<open>scanAny\<close> and \<open>scanAll\<close> (\<open>Get\<close> and
  \<open>Select\<close>) reject a destination that is not a pointer, and a nil pointer, with an
  invalid-destination error before anything is scanned. \<open>StructScan\<close> itself has no nil
  test, and what it does with a nil pointer depends on the binder and on the type pointed
  to; in no case is a row scanned.
  \<^item> On a started binder the call fails with the error that the argument is not a struct,
    and nothing else changes.
  \<^item> On an unstarted binder, for a nil pointer to anything but a struct, the call does not
    return: the resolver panics.
  \<^item> On an unstarted binder in safe mode, for a nil pointer to a struct whose plan lacks a
    field for some column, the plan is cached, the call fails with the missing-field error
    naming the first such column, and the binder stays unstarted.
  \<^item> On an unstarted binder otherwise (unsafe mode, or every column has a field), for a nil
    pointer to a struct, the plan is cached, the value buffer is allocated, the binder
    becomes started, and the call fails with the error that the argument is not a struct.
  The missing-field error is no invalid-destination error; the others named here are.
\<close>

theorem invalid_destination_rejected:
  "(ValueOf_Kind dest \<noteq> Ptr \<longrightarrow>
      StructScan dest iter = Some (False, dest, iter\<lparr>err := Some MustPassPointer\<rparr>)
      \<and> scanAny dest iter = (False, dest, iter\<lparr>err := Some (ExpectedPointer (TypeOf dest))\<rparr>)
      \<and> scanAll grow dest iter = (False, dest, iter\<lparr>err := Some (ExpectedPointer (TypeOf dest))\<rparr>))
   \<and> (ValueOf_Kind dest = Ptr \<and> IsNil dest \<longrightarrow>
      scanAny dest iter = (False, dest, iter\<lparr>err := Some ExpectedPointerGotNil\<rparr>)
      \<and> scanAll grow dest iter = (False, dest, iter\<lparr>err := Some ExpectedPointerGotNil\<rparr>)
      \<and> (started iter \<longrightarrow>
            StructScan dest iter = Some (False, dest, iter\<lparr>err := Some ArgumentNotStruct\<rparr>))
      \<and> (\<not> started iter \<and> Kind (Deref (Value_Type dest)) \<noteq> Struct \<longrightarrow>
            StructScan dest iter = None)
      \<and> (\<not> started iter \<and> Kind (Deref (Value_Type dest)) = Struct
            \<and> \<not> unsafe iter \<and> [] \<in> set (traversal_plan dest iter) \<longrightarrow>
            (\<exists>f. f < length (Columns (Iter iter)) \<and> traversal_plan dest iter ! f = []
               \<and> (\<forall>i<f. traversal_plan dest iter ! i \<noteq> [])
               \<and> StructScan dest iter =
                   Some (False, dest, (planned dest iter)
                     \<lparr>err := Some (MissingDestinationName
                                    (columnNames (Columns (Iter iter)) ! f) (TypeOf dest))\<rparr>)))
      \<and> (\<not> started iter \<and> Kind (Deref (Value_Type dest)) = Struct
            \<and> (unsafe iter \<or> [] \<notin> set (traversal_plan dest iter)) \<longrightarrow>
            StructScan dest iter =
              Some (False, dest, (planned dest iter)
                \<lparr>iter_values := replicate (length (Columns (Iter iter))) NilSlot,
                 started := True, err := Some ArgumentNotStruct\<rparr>)))
   \<and> invalid_destination MustPassPointer \<and> invalid_destination (ExpectedPointer (TypeOf dest))
   \<and> invalid_destination ExpectedPointerGotNil \<and> invalid_destination ArgumentNotStruct
   \<and> \<not> invalid_destination (MissingDestinationName c t)"
proof -
  have a: "ValueOf_Kind dest \<noteq> Ptr \<longrightarrow>
      StructScan dest iter = Some (False, dest, iter\<lparr>err := Some MustPassPointer\<rparr>)
      \<and> scanAny dest iter = (False, dest, iter\<lparr>err := Some (ExpectedPointer (TypeOf dest))\<rparr>)
      \<and> scanAll grow dest iter = (False, dest, iter\<lparr>err := Some (ExpectedPointer (TypeOf dest))\<rparr>)"
    by (simp add: StructScan_def scanAny_def scanAll_def)
  have b: "ValueOf_Kind dest = Ptr \<and> IsNil dest \<longrightarrow>
      scanAny dest iter = (False, dest, iter\<lparr>err := Some ExpectedPointerGotNil\<rparr>)
      \<and> scanAll grow dest iter = (False, dest, iter\<lparr>err := Some ExpectedPointerGotNil\<rparr>)"
    by (simp add: scanAny_def scanAll_def)
  have c: "ValueOf_Kind dest = Ptr \<and> IsNil dest \<longrightarrow> started iter \<longrightarrow>
            StructScan dest iter = Some (False, dest, iter\<lparr>err := Some ArgumentNotStruct\<rparr>)"
    using StructScan_started_nil [of dest iter] by blast
  have d: "ValueOf_Kind dest = Ptr \<and> IsNil dest \<longrightarrow>
            \<not> started iter \<and> Kind (Deref (Value_Type dest)) \<noteq> Struct \<longrightarrow>
            StructScan dest iter = None"
    using StructScan_None [of dest iter] by blast
  have e: "ValueOf_Kind dest = Ptr \<and> IsNil dest \<longrightarrow>
            \<not> started iter \<and> Kind (Deref (Value_Type dest)) = Struct
            \<and> \<not> unsafe iter \<and> [] \<in> set (traversal_plan dest iter) \<longrightarrow>
            (\<exists>f. f < length (Columns (Iter iter)) \<and> traversal_plan dest iter ! f = []
               \<and> (\<forall>i<f. traversal_plan dest iter ! i \<noteq> [])
               \<and> StructScan dest iter =
                   Some (False, dest, (planned dest iter)
                     \<lparr>err := Some (MissingDestinationName
                                    (columnNames (Columns (Iter iter)) ! f) (TypeOf dest))\<rparr>))"
    using StructScan_first_missing [of dest iter] by blast
  have f: "ValueOf_Kind dest = Ptr \<and> IsNil dest \<longrightarrow>
            \<not> started iter \<and> Kind (Deref (Value_Type dest)) = Struct
            \<and> (unsafe iter \<or> [] \<notin> set (traversal_plan dest iter)) \<longrightarrow>
            StructScan dest iter =
              Some (False, dest, (planned dest iter)
                \<lparr>iter_values := replicate (length (Columns (Iter iter))) NilSlot,
                 started := True, err := Some ArgumentNotStruct\<rparr>)"
    using StructScan_first_nil [of dest iter] by blast
  from a b c d e f show ?thesis by simp
qed

theorem invalid_destination_rejected_witness:
  "StructScan (Iface UnsafeTable (Some VZero)) (fresh_iterx unsafe_table)
     = Some (False, Iface UnsafeTable (Some VZero),
             (fresh_iterx unsafe_table)\<lparr>err := Some MustPassPointer\<rparr>)
   \<and> fst (Get (Iface UnsafeTable (Some VZero)) (fresh_iterx unsafe_table))
       = Some (ExpectedPointer (Some UnsafeTable))
   \<and> fst (Get nil_UnsafeTable (fresh_iterx unsafe_table)) = Some ExpectedPointerGotNil
   \<and> fst (Select double NilIface (fresh_iterx unsafe_table)) = Some (ExpectedPointer None)
   \<and> StructScan nil_UnsafeTable (fresh_iterx unsafe_table)
       = Some (False, nil_UnsafeTable,
               (fresh_iterx unsafe_table)
                 \<lparr>Mapper := DefaultMapper\<lparr>traversal_calls := 1\<rparr>, iter_fields := [[0], []],
                  err := Some (MissingDestinationName ''testtextunbound''
                                 (Some (PtrTo UnsafeTable)))\<rparr>)
   \<and> StructScan nil_UnsafeTable (Unsafe (fresh_iterx unsafe_table))
       = Some (False, nil_UnsafeTable,
               (fresh_iterx unsafe_table)
                 \<lparr>unsafe := True, Mapper := DefaultMapper\<lparr>traversal_calls := 1\<rparr>,
                  iter_fields := [[0], []], iter_values := [NilSlot, NilSlot],
                  started := True, err := Some ArgumentNotStruct\<rparr>)
   \<and> StructScan nil_UnsafeTable ((fresh_iterx unsafe_table)\<lparr>started := True\<rparr>)
       = Some (False, nil_UnsafeTable,
               (fresh_iterx unsafe_table)\<lparr>started := True, err := Some ArgumentNotStruct\<rparr>)
   \<and> StructScan (Iface (PtrTo (OtherType ''int'')) None) (fresh_iterx unsafe_table) = None"
  using invalid_destination_rejected [of "Iface UnsafeTable (Some VZero)" "fresh_iterx unsafe_table" double]
    invalid_destination_rejected [of nil_UnsafeTable "fresh_iterx unsafe_table" double]
    invalid_destination_rejected [of NilIface "fresh_iterx unsafe_table" double]
    invalid_destination_rejected [of nil_UnsafeTable "Unsafe (fresh_iterx unsafe_table)" double]
    invalid_destination_rejected [of nil_UnsafeTable "(fresh_iterx unsafe_table)\<lparr>started := True\<rparr>"
      double]
    invalid_destination_rejected [of "Iface (PtrTo (OtherType ''int'')) None"
      "fresh_iterx unsafe_table" double]
  by (simp add: eval_defs fixture_defs)

section \<open>The traversal plan of StructScan\<close>

text \<open>
  C7. The destination is a pointer to a struct and the binder is unstarted. In safe
  mode, when the plan has a column without a field, \<open>StructScan\<close> fails with the
  missing-field error that names the first such column and the type of the destination;
  the plan it asked for is cached, but the binder stays unstarted and the cursor is
  untouched. Otherwise (unsafe mode, or every column has a field) the call returns with
  the binder started, the resolver called once and its plan cached, whatever the scan of
  the row gave; and after any further calls with destinations of the same type the binder
  is still started, with the same plan, and the resolver was not called again: once in
  all.
\<close>

theorem StructScan_missing_field_and_plan_once:
  assumes "ValueOf_Kind dest = Ptr" and "Kind (Deref (Value_Type dest)) = Struct"
    and "\<not> started iter" and "\<forall>d\<in>set dests. TypeOf d = TypeOf dest"
  shows "(\<not> unsafe iter \<and> [] \<in> set (traversal_plan dest iter) \<longrightarrow>
            (\<exists>f iter1. StructScan dest iter = Some (False, dest, iter1)
               \<and> iter1 = (planned dest iter)
                   \<lparr>err := Some (MissingDestinationName (columnNames (Columns (Iter iter)) ! f)
                                  (TypeOf dest))\<rparr>
               \<and> f < length (Columns (Iter iter)) \<and> traversal_plan dest iter ! f = []
               \<and> (\<forall>i<f. traversal_plan dest iter ! i \<noteq> [])
               \<and> \<not> started iter1 \<and> Iter iter1 = Iter iter))
       \<and> (unsafe iter \<or> [] \<notin> set (traversal_plan dest iter) \<longrightarrow>
            (\<exists>ok d iter1 iterN. StructScan dest iter = Some (ok, d, iter1)
               \<and> started iter1
               \<and> traversal_calls (Mapper iter1) = Suc (traversal_calls (Mapper iter))
               \<and> iter_fields iter1 = traversal_plan dest iter
               \<and> StructScans dests iter1 = Some iterN
               \<and> StructScans (dest # dests) iter = Some iterN
               \<and> started iterN
               \<and> traversal_calls (Mapper iterN) = Suc (traversal_calls (Mapper iter))
               \<and> iter_fields iterN = traversal_plan dest iter))"
proof -
  have a: "\<not> unsafe iter \<and> [] \<in> set (traversal_plan dest iter) \<longrightarrow>
            (\<exists>f iter1. StructScan dest iter = Some (False, dest, iter1)
               \<and> iter1 = (planned dest iter)
                   \<lparr>err := Some (MissingDestinationName (columnNames (Columns (Iter iter)) ! f)
                                  (TypeOf dest))\<rparr>
               \<and> f < length (Columns (Iter iter)) \<and> traversal_plan dest iter ! f = []
               \<and> (\<forall>i<f. traversal_plan dest iter ! i \<noteq> [])
               \<and> \<not> started iter1 \<and> Iter iter1 = Iter iter)"
  proof
    assume h: "\<not> unsafe iter \<and> [] \<in> set (traversal_plan dest iter)"
    from StructScan_first_missing [OF assms(1,2,3)] h obtain f where
      f: "f < length (Columns (Iter iter))" "traversal_plan dest iter ! f = []"
        "\<forall>i<f. traversal_plan dest iter ! i \<noteq> []"
        "StructScan dest iter =
           Some (False, dest, (planned dest iter)
             \<lparr>err := Some (MissingDestinationName (columnNames (Columns (Iter iter)) ! f)
                            (TypeOf dest))\<rparr>)"
      by blast
    have "\<not> started ((planned dest iter)
             \<lparr>err := Some (MissingDestinationName (columnNames (Columns (Iter iter)) ! f)
                            (TypeOf dest))\<rparr>)"
      and "Iter ((planned dest iter)
             \<lparr>err := Some (MissingDestinationName (columnNames (Columns (Iter iter)) ! f)
                            (TypeOf dest))\<rparr>) = Iter iter"
      using assms(3) by (simp_all add: planned_def)
    with f show "\<exists>f iter1. StructScan dest iter = Some (False, dest, iter1)
               \<and> iter1 = (planned dest iter)
                   \<lparr>err := Some (MissingDestinationName (columnNames (Columns (Iter iter)) ! f)
                                  (TypeOf dest))\<rparr>
               \<and> f < length (Columns (Iter iter)) \<and> traversal_plan dest iter ! f = []
               \<and> (\<forall>i<f. traversal_plan dest iter ! i \<noteq> [])
               \<and> \<not> started iter1 \<and> Iter iter1 = Iter iter"
      by blast
  qed
  have b: "unsafe iter \<or> [] \<notin> set (traversal_plan dest iter) \<longrightarrow>
            (\<exists>ok d iter1 iterN. StructScan dest iter = Some (ok, d, iter1)
               \<and> started iter1
               \<and> traversal_calls (Mapper iter1) = Suc (traversal_calls (Mapper iter))
               \<and> iter_fields iter1 = traversal_plan dest iter
               \<and> StructScans dests iter1 = Some iterN
               \<and> StructScans (dest # dests) iter = Some iterN
               \<and> started iterN
               \<and> traversal_calls (Mapper iterN) = Suc (traversal_calls (Mapper iter))
               \<and> iter_fields iterN = traversal_plan dest iter)"
  proof
    assume h: "unsafe iter \<or> [] \<notin> set (traversal_plan dest iter)"
    from StructScan_first_started [OF assms(1,2,3) h] obtain ok d iter1 where
      s: "StructScan dest iter = Some (ok, d, iter1)" "started iter1"
        "Mapper iter1 = resolver_called (Mapper iter)"
        "iter_fields iter1 = traversal_plan dest iter"
      by blast
    from StructScans_started [OF s(2), of dests] obtain iterN where
      n: "StructScans dests iter1 = Some iterN" "started iterN"
        "Mapper iterN = Mapper iter1" "iter_fields iterN = iter_fields iter1"
      by blast
    from s n have "StructScan dest iter = Some (ok, d, iter1)
               \<and> started iter1
               \<and> traversal_calls (Mapper iter1) = Suc (traversal_calls (Mapper iter))
               \<and> iter_fields iter1 = traversal_plan dest iter
               \<and> StructScans dests iter1 = Some iterN
               \<and> StructScans (dest # dests) iter = Some iterN
               \<and> started iterN
               \<and> traversal_calls (Mapper iterN) = Suc (traversal_calls (Mapper iter))
               \<and> iter_fields iterN = traversal_plan dest iter"
      by (simp add: resolver_called_def)
    then show "\<exists>ok d iter1 iterN. StructScan dest iter = Some (ok, d, iter1)
               \<and> started iter1
               \<and> traversal_calls (Mapper iter1) = Suc (traversal_calls (Mapper iter))
               \<and> iter_fields iter1 = traversal_plan dest iter
               \<and> StructScans dests iter1 = Some iterN
               \<and> StructScans (dest # dests) iter = Some iterN
               \<and> started iterN
               \<and> traversal_calls (Mapper iterN) = Suc (traversal_calls (Mapper iter))
               \<and> iter_fields iterN = traversal_plan dest iter"
      by blast
  qed
  from a b show ?thesis by (rule conjI)
qed

theorem StructScan_missing_field_and_plan_once_witness:
  "StructScan (ptr UnsafeTable) (fresh_iterx unsafe_table)
     = Some (False, ptr UnsafeTable,
        (fresh_iterx unsafe_table)
          \<lparr>Mapper := DefaultMapper\<lparr>traversal_calls := 1\<rparr>, iter_fields := [[0], []],
           err := Some (MissingDestinationName ''testtextunbound'' (Some (PtrTo UnsafeTable)))\<rparr>)
   \<and> map_option started
        (StructScans [ptr UnsafeTable, ptr UnsafeTable, ptr UnsafeTable, ptr UnsafeTable]
           (fresh_iterx paging_cursor)) = Some True
   \<and> map_option (\<lambda>iter. traversal_calls (Mapper iter))
        (StructScans [ptr UnsafeTable, ptr UnsafeTable, ptr UnsafeTable, ptr UnsafeTable]
           (fresh_iterx paging_cursor)) = Some 1
   \<and> map_option iter_fields
        (StructScans [ptr UnsafeTable, ptr UnsafeTable, ptr UnsafeTable, ptr UnsafeTable]
           (fresh_iterx paging_cursor)) = Some [[0]]
   \<and> map_option (\<lambda>iter. pos (Iter iter))
        (StructScans [ptr UnsafeTable, ptr UnsafeTable, ptr UnsafeTable, ptr UnsafeTable]
           (fresh_iterx paging_cursor)) = Some 1"
proof -
  have a: "ValueOf_Kind (ptr UnsafeTable) = Ptr"
    "Kind (Deref (Value_Type (ptr UnsafeTable))) = Struct"
    "\<not> started (fresh_iterx unsafe_table)" "\<not> started (fresh_iterx paging_cursor)"
    "\<forall>d\<in>set []. TypeOf d = TypeOf (ptr UnsafeTable)"
    "\<forall>d\<in>set [ptr UnsafeTable, ptr UnsafeTable, ptr UnsafeTable].
       TypeOf d = TypeOf (ptr UnsafeTable)"
    by (simp_all add: fixture_defs Deref_def)
  from StructScan_missing_field_and_plan_once [OF a(1,2,3,5)]
    StructScan_missing_field_and_plan_once [OF a(1,2,4,6)]
  show ?thesis
    by (simp add: eval_defs fixture_defs traversal_plan_def planned_def resolver_called_def)
qed

section \<open>The rows Select collects\<close>

lemma Iter_Scan_failure_remaining:
  "Iter_Scan n it = (False, cells, it1) \<Longrightarrow> remaining it1 = remaining it"
proof (induction n it rule: Iter_Scan.induct)
  case (1 n it)
  show ?case
  proof (cases "iter_err it = None \<and> length (page it) \<le> pos it")
    case True
    show ?thesis
    proof (cases "next_pages it")
      case Nil
      with True "1.prems" show ?thesis
        by (auto simp: Iter_Scan.simps [of n it])
    next
      case (Cons p ps)
      with True "1.prems" "1.IH" [OF _ _ Cons] show ?thesis
        by (simp add: Iter_Scan_switch [of it p ps] remaining_switch)
    qed
  next
    case False
    with "1.prems" show ?thesis
      by (auto simp: Iter_Scan.simps [of n it] remaining_def split: if_splits row.splits)
  qed
qed

lemma Iter_Scan_ok_hint:
  "Iter_Scan n it = (True, cells, it1) \<Longrightarrow> NumRows it1 = first_row_hint it"
  using Iter_Scan_ok [of n it cells it1] by (auto simp: first_row_hint_def Columns_def)

lemma first_row_hint_here:
  "iter_err it = None \<Longrightarrow> pos it < length (page it) \<Longrightarrow> first_row_hint it = NumRows it"
  by (simp add: first_row_hint_def Columns_def Iter_Scan_here NumRows_def split: row.splits)

lemma fold_update_length:
  "length (fold (\<lambda>(i, tr) vs. vs[i := f tr]) (enumerate n fs) vs) = length vs"
  by (induction fs arbitrary: n vs) auto

lemma fold_update_nth:
  "i < length vs \<Longrightarrow>
   fold (\<lambda>(i, tr) vs. vs[i := f tr]) (enumerate n fs) vs ! i =
     (if n \<le> i \<and> i < n + length fs then f (fs ! (i - n)) else vs ! i)"
proof (induction fs arbitrary: n vs)
  case Nil
  then show ?case by auto
next
  case (Cons a fs)
  from Cons.prems Cons.IH [of "vs[n := f a]" "Suc n"] show ?case
    by (auto simp: nth_list_update nth_Cons' Suc_diff_le)
qed

lemma fold_update_idem:
  "fold (\<lambda>(i, tr) vs. vs[i := f tr]) (enumerate 0 fs)
     (fold (\<lambda>(i, tr) vs. vs[i := f tr]) (enumerate 0 fs) vs)
   = fold (\<lambda>(i, tr) vs. vs[i := f tr]) (enumerate 0 fs) vs"
  by (rule nth_equalityI) (simp_all add: fold_update_length fold_update_nth)

lemma fieldsByTraversal_idem:
  "fieldsByTraversal dest fs vs = Inr vals \<Longrightarrow> fieldsByTraversal dest fs vals = Inr vals"
  by (auto simp: fieldsByTraversal_def fold_update_idem split: if_splits)

lemma StructScan_New_ok:
  assumes "call_StructScan (New base) iter = (True, vp, iter1)"
  shows "\<exists>cells. settled base iter1 \<and> vp = store_dest (iter_values iter1) cells (New base)
           \<and> remaining (Iter iter) = Row cells # remaining (Iter iter1)
           \<and> NumRows (Iter iter1) = first_row_hint (Iter iter)
           \<and> err iter1 = err iter"
proof (cases rule: StructScan_cases [where dest = "New base" and iter = iter])
  case (reject iter1)
  with assms show ?thesis by (simp add: call_StructScan_def)
next
  case panic
  with assms show ?thesis by (simp add: call_StructScan_def)
next
  case (scan it1 vals ok cells it)
  from scan(1) assms have eq: "ok = True" "vp = store_dest vals cells (New base)"
    "iter1 = it1\<lparr>Iter := it, iter_values := vals\<rparr>" by (simp_all add: call_StructScan_def)
  from scan(6) have st: "started it1"
    by (auto split: if_splits dest: start_Inr_started)
  from fieldsByTraversal_idem [OF scan(3)] st eq have "settled base iter1"
    by (simp add: settled_def)
  moreover from scan(2) eq Iter_Scan_ok [of "length vals" "Iter iter" cells it]
    Iter_Scan_ok_hint [of "length vals" "Iter iter" cells it]
  have "remaining (Iter iter) = Row cells # remaining (Iter iter1)"
    "NumRows (Iter iter1) = first_row_hint (Iter iter)" by simp_all
  ultimately show ?thesis using eq scan(5) by auto
qed

lemma StructScan_New_failed:
  assumes "call_StructScan (New base) iter = (False, vp, iter1)"
  shows "remaining (Iter iter1) = remaining (Iter iter)"
proof (cases rule: StructScan_cases [where dest = "New base" and iter = iter])
  case (reject it1)
  with assms show ?thesis by (simp add: call_StructScan_def)
next
  case panic
  with assms show ?thesis by (simp add: call_StructScan_def)
next
  case (scan it1 vals ok cells it)
  with assms Iter_Scan_failure_remaining [of "length vals" "Iter iter" cells it]
  show ?thesis by (auto simp: call_StructScan_def)
qed

lemma StructScan_settled:
  assumes "settled base iter" and "call_StructScan (New base) iter = (ok, vp, iter1)"
  shows "iter_values iter1 = iter_values iter \<and> settled base iter1"
  using assms
  by (auto simp: settled_def call_StructScan_def StructScan_def New_def split: prod.splits)

lemma Scan_New_ok:
  assumes "Scan (New base) iter = (True, vp, iter1)"
  shows "\<exists>cells. vp = store_single cells (New base)
           \<and> remaining (Iter iter) = Row cells # remaining (Iter iter1)
           \<and> NumRows (Iter iter1) = first_row_hint (Iter iter)
           \<and> iter_values iter1 = iter_values iter \<and> err iter1 = err iter"
proof -
  obtain cells it where sc: "Iter_Scan 1 (Iter iter) = (True, cells, it)"
    and eq: "vp = store_single cells (New base)" "iter1 = iter\<lparr>Iter := it\<rparr>"
    using assms by (auto simp: Scan_def split: prod.splits)
  from Iter_Scan_ok [OF sc] Iter_Scan_ok_hint [OF sc] eq show ?thesis by auto
qed

lemma Scan_New_failed:
  assumes "Scan (New base) iter = (False, vp, iter1)"
  shows "remaining (Iter iter1) = remaining (Iter iter) \<and> iter_values iter1 = iter_values iter"
  using assms
  by (auto simp: Scan_def split: prod.splits dest: Iter_Scan_failure_remaining)

lemma scanAll_loop_rows:
  assumes "scanAll_loop grow base scannable isPtr acc iter = ((alloc', v'), iter')"
  shows "(scannable \<or> settled base iter \<longrightarrow> iter_values iter' = iter_values iter)
       \<and> (\<exists>rows. remaining (Iter iter) = map Row rows @ remaining (Iter iter')
            \<and> alloc' = (fst acc \<or> rows \<noteq> [])
            \<and> v' = (if rows = [] then snd acc
                    else foldl (Append grow)
                           (if fst acc then snd acc
                            else MakeSlice 0 (first_row_hint (Iter iter)))
                           (map (row_elem scannable isPtr base (iter_values iter')) rows)))"
  using assms
proof (induction acc iter arbitrary: alloc' v' iter'
    rule: scanAll_loop_induct [where scannable = scannable and base = base
         and grow = grow and isPtr = isPtr])
  case (turn alloc v iter)
  obtain ok vp iter1 where step:
    "(if \<not> scannable then call_StructScan (New base) iter else Scan (New base) iter) = (ok, vp, iter1)"
    by (metis prod_cases3)
  show ?case
  proof (cases ok)
    case False
    with step turn.prems have eq: "alloc' = alloc" "v' = v" "iter' = iter1"
      by (simp_all add: scanAll_loop_stop)
    from False step have r: "remaining (Iter iter1) = remaining (Iter iter)"
      by (auto split: if_splits dest: StructScan_New_failed Scan_New_failed)
    from False step have vs: "scannable \<or> settled base iter \<longrightarrow> iter_values iter1 = iter_values iter"
      by (auto split: if_splits dest: StructScan_settled Scan_New_failed)
    from eq r vs show ?thesis by auto
  next
    case True
    let ?v1 = "if \<not> alloc then MakeSlice 0 (NumRows (Iter iter1)) else v"
    let ?e = "if isPtr then Pointer vp else Indirect vp"
    from True step turn.prems
    have l: "scanAll_loop grow base scannable isPtr (True, Append grow ?v1 ?e) iter1
        = ((alloc', v'), iter')"
      by (simp add: scanAll_loop_continue)
    from True step have step': "(if \<not> scannable then call_StructScan (New base) iter
        else Scan (New base) iter) = (True, vp, iter1)" by simp
    from turn.IH [OF step' l]
    obtain rows where ih: "scannable \<or> settled base iter1 \<longrightarrow> iter_values iter' = iter_values iter1"
      "remaining (Iter iter1) = map Row rows @ remaining (Iter iter')" "alloc'"
      "v' = foldl (Append grow) (Append grow ?v1 ?e)
              (map (row_elem scannable isPtr base (iter_values iter')) rows)"
      by (cases "rows = []") auto
    from True step obtain cells where c:
      "remaining (Iter iter) = Row cells # remaining (Iter iter1)"
      "NumRows (Iter iter1) = first_row_hint (Iter iter)"
      "scannable \<or> settled base iter1"
      "vp = (if scannable then store_single cells (New base)
             else store_dest (iter_values iter1) cells (New base))"
      "scannable \<or> settled base iter \<longrightarrow> iter_values iter1 = iter_values iter"
      by (cases scannable) (auto dest: StructScan_New_ok Scan_New_ok StructScan_settled)
    from c(3) ih(1) have vs: "iter_values iter' = iter_values iter1" by simp
    from c(4) vs have e: "?e = row_elem scannable isPtr base (iter_values iter') cells"
      by (simp add: row_elem_def)
    have "remaining (Iter iter) = map Row (cells # rows) @ remaining (Iter iter')"
      using c(1) ih(2) by simp
    moreover have "v' = foldl (Append grow)
        (if alloc then v else MakeSlice 0 (first_row_hint (Iter iter)))
        (map (row_elem scannable isPtr base (iter_values iter')) (cells # rows))"
      using ih(4) e c(2) by simp
    ultimately show ?thesis
      using ih(3) c(5) vs
      by (intro conjI exI [of _ "cells # rows"]) auto
  qed
qed

lemma foldl_Append:
  "\<exists>c'. foldl (Append grow) (VSlice xs c) es = VSlice (xs @ es) c'
        \<and> (length xs + length es \<le> c \<longrightarrow> c' = c)"
proof (induction es arbitrary: xs c)
  case Nil
  then show ?case by simp
next
  case (Cons e es)
  from Cons.IH [of "xs @ [e]" "if length xs < c then c else grow c (Suc (length xs))"]
  show ?case by auto
qed

lemma baseType_Inr: "baseType t k = Inr slice \<Longrightarrow> slice = Deref t"
  by (auto simp: baseType_def Let_def split: if_splits)

lemma scanAll_rows:
  assumes "scanAll grow dest iter = (ok, dest', iter')"
  shows "\<exists>rows. remaining (Iter iter) = map Row rows @ remaining (Iter iter')
     \<and> dest' = (if rows = [] then dest
                else Set_Indirect dest
                       (foldl (Append grow) (MakeSlice 0 (first_row_hint (Iter iter)))
                          (map (select_elem dest iter (iter_values iter')) rows)))"
proof (cases rule: scanAll_cases [where grow = grow and dest = dest and iter = iter])
  case (invalid e)
  with assms show ?thesis by (intro exI [of _ "[]"]) auto
next
  case (loop slice scannable alloc v iter1)
  from loop(7) assms have eq: "dest' = (if alloc then Set_Indirect dest v else dest)" "iter' = iter1"
    by simp_all
  from scanAll_loop_rows [OF loop(6)] obtain rows where
    r: "remaining (Iter iter) = map Row rows @ remaining (Iter iter1)" "alloc = (rows \<noteq> [])"
    "v = (if rows = [] then VZero
          else foldl (Append grow) (MakeSlice 0 (first_row_hint (Iter iter)))
                 (map (row_elem scannable (Kind (Elem slice) = Ptr) (Deref (Elem slice))
                        (iter_values iter1)) rows))"
    by auto
  from loop(4) have sc: "scannable = (scannable_verdict iter (Deref (Elem slice)) = Inr True)"
    by simp
  from baseType_Inr [OF loop(3)] sc
  have "row_elem scannable (Kind (Elem slice) = Ptr) (Deref (Elem slice)) (iter_values iter1)
        = select_elem dest iter (iter_values iter1)"
    by (simp add: select_elem_def fun_eq_iff Let_def)
  with eq r show ?thesis by (intro exI [of _ rows]) auto
qed

lemma Select_rows:
  assumes "Select grow dest iter = (r, dest', iter')"
  shows "\<exists>rows. remaining (Iter iter) = map Row rows @ remaining (Iter iter')
     \<and> dest' = (if rows = [] then dest
                else Set_Indirect dest
                       (foldl (Append grow) (MakeSlice 0 (first_row_hint (Iter iter)))
                          (map (select_elem dest iter (iter_values iter')) rows)))"
proof -
  obtain ok iter1 where s: "scanAll grow dest iter = (ok, dest', iter1)"
    using assms by (auto simp: Select_def split: prod.splits)
  with assms obtain e where c: "Close iter1 = (e, iter')"
    by (auto simp: Select_def split: prod.splits)
  from Close_eq [OF c] have "remaining (Iter iter') = remaining (Iter iter1)"
    "iter_values iter' = iter_values iter1"
    by (auto simp: remaining_def)
  with scanAll_rows [OF s] show ?thesis by metis
qed

lemma scanAll_loop_exhausted:
  assumes "iter_err (Iter iter) = None" and "remaining (Iter iter) = []"
  shows "fst (scanAll_loop grow base scannable isPtr acc iter) = acc"
proof -
  have "\<exists>it1. (if \<not> scannable then call_StructScan (New base) iter else Scan (New base) iter)
        = (False, New base, it1)"
    using Scan_exhausted [OF assms] StructScan_exhausted [OF assms] by auto
  then show ?thesis
    by (cases acc) (auto simp: scanAll_loop_stop)
qed

text \<open>
  C8. The rows \<open>Select\<close> scanned are the rows the cursor has lost. When there are none
  the destination is exactly as before (a nil slice stays nil: no length, no capacity),
  and on a result without rows the loop ends with its accumulator unallocated. When
  there are some, the destination holds the slice made with length 0 and the capacity the
  cursor reported after the first row, with one element appended for each row; its
  capacity is that hint as long as the rows fit. While the next row is in the current page
  the hint is \<open>NumRows\<close> of the cursor.
\<close>

theorem Select_lazy_allocation:
  assumes "Select grow dest iter = (r, dest', iter')"
  shows "(\<exists>rows. remaining (Iter iter) = map Row rows @ remaining (Iter iter')
           \<and> (rows = [] \<longrightarrow> dest' = dest)
           \<and> (rows \<noteq> [] \<longrightarrow>
                dest' = Set_Indirect dest
                          (foldl (Append grow) (MakeSlice 0 (first_row_hint (Iter iter)))
                             (map (select_elem dest iter (iter_values iter')) rows))
                \<and> (\<exists>cap. dest' = Set_Indirect dest
                                   (VSlice (map (select_elem dest iter (iter_values iter')) rows) cap)
                          \<and> (length rows \<le> first_row_hint (Iter iter)
                                \<longrightarrow> cap = first_row_hint (Iter iter)))))
       \<and> (remaining (Iter iter) = [] \<longrightarrow> dest' = dest)
       \<and> (remaining (Iter iter) = [] \<and> iter_err (Iter iter) = None \<longrightarrow>
            fst (scanAll_loop grow base scannable isPtr (False, VZero) iter) = (False, VZero))
       \<and> (iter_err (Iter iter) = None \<and> pos (Iter iter) < length (page (Iter iter)) \<longrightarrow>
            first_row_hint (Iter iter) = NumRows (Iter iter))"
proof -
  from Select_rows [OF assms] obtain rows where
    r: "remaining (Iter iter) = map Row rows @ remaining (Iter iter')"
    "dest' = (if rows = [] then dest
                else Set_Indirect dest
                       (foldl (Append grow) (MakeSlice 0 (first_row_hint (Iter iter)))
                          (map (select_elem dest iter (iter_values iter')) rows)))"
    by blast
  let ?es = "map (select_elem dest iter (iter_values iter')) rows"
  from foldl_Append [of grow "[]" "first_row_hint (Iter iter)" ?es]
  obtain cap where c: "foldl (Append grow) (MakeSlice 0 (first_row_hint (Iter iter))) ?es
      = VSlice ?es cap" "length rows \<le> first_row_hint (Iter iter) \<longrightarrow> cap = first_row_hint (Iter iter)"
    by (auto simp: MakeSlice_def)
  have a: "\<exists>rows. remaining (Iter iter) = map Row rows @ remaining (Iter iter')
           \<and> (rows = [] \<longrightarrow> dest' = dest)
           \<and> (rows \<noteq> [] \<longrightarrow>
                dest' = Set_Indirect dest
                          (foldl (Append grow) (MakeSlice 0 (first_row_hint (Iter iter)))
                             (map (select_elem dest iter (iter_values iter')) rows))
                \<and> (\<exists>cap. dest' = Set_Indirect dest
                                   (VSlice (map (select_elem dest iter (iter_values iter')) rows) cap)
                          \<and> (length rows \<le> first_row_hint (Iter iter)
                                \<longrightarrow> cap = first_row_hint (Iter iter))))"
    using r c by (intro exI [of _ rows]) auto
  from r have b: "remaining (Iter iter) = [] \<longrightarrow> dest' = dest" by auto
  from a b scanAll_loop_exhausted [of iter grow base scannable isPtr "(False, VZero)"]
    first_row_hint_here [of "Iter iter"]
  show ?thesis by blast
qed

theorem Select_lazy_allocation_witness:
  "snd (Select double (ptr (SliceOf UnsafeTable)) (fresh_iterx (cursor [''testtext''] [])))
     = (ptr (SliceOf UnsafeTable),
        (fresh_iterx (cursor [''testtext''] []))
          \<lparr>Iter := (cursor [''testtext''] [])\<lparr>closed := True\<rparr>,
           Mapper := DefaultMapper\<lparr>traversal_calls := 1\<rparr>,
           started := True, iter_fields := [[0]], iter_values := [FieldAddr [0]]\<rparr>)
   \<and> fst (snd (Select double (ptr (SliceOf UnsafeTable)) (fresh_iterx paging_cursor)))
     = Iface (PtrTo (SliceOf UnsafeTable))
         (Some (VSlice [VStruct [([0], ''a'')], VStruct [([0], ''b'')], VStruct [([0], ''c'')]] 4))
   \<and> first_row_hint paging_cursor = 2"
proof -
  let ?empty = "fresh_iterx (cursor [''testtext''] [])"
  let ?d = "ptr (SliceOf UnsafeTable)"
  have s: "\<And>i. Select double ?d i = (fst (Select double ?d i),
      fst (snd (Select double ?d i)), snd (snd (Select double ?d i)))"
    by simp
  from Select_lazy_allocation [OF s, of ?empty UnsafeTable False False]
    Select_lazy_allocation [OF s, of "fresh_iterx paging_cursor" UnsafeTable False False]
  show ?thesis
    by (simp add: eval_defs fixture_defs first_row_hint_def double_def)
qed

lemma scanAll_invalid:
  assumes "ValueOf_Kind dest \<noteq> Ptr \<or> IsNil dest
       \<or> (\<exists>e1. baseType (Value_Type dest) Slice = Inl e1)
       \<or> (\<exists>e2. scannable_verdict iter (Deref (Elem (Deref (Value_Type dest)))) = Inl e2)
       \<or> (scannable_verdict iter (Deref (Elem (Deref (Value_Type dest)))) = Inr True
           \<and> 1 < length (Columns (Iter iter)))"
  shows "\<exists>e. scanAll grow dest iter = (False, dest, iter\<lparr>err := Some e\<rparr>)"
proof (cases rule: scanAll_cases [where grow = grow and dest = dest and iter = iter])
  case (invalid e)
  then show ?thesis by blast
next
  case (loop slice scannable alloc v iter1)
  from baseType_Inr [OF loop(3)] loop(1-5) assms show ?thesis by auto
qed

lemma Select_after_invalid:
  "scanAll grow dest iter = (False, dest, iter\<lparr>err := Some e\<rparr>) \<Longrightarrow>
   Select grow dest iter =
     (Some e, dest, iter\<lparr>err := Some e, Iter := (Iter iter)\<lparr>closed := True\<rparr>\<rparr>)"
  by (simp add: Select_def Close_def Iter_Close_def)

text \<open>
  C9. When \<open>Select\<close> returns an error after it scanned one row or more, the destination
  has been set all the same: it holds the slice of the elements of exactly those rows,
  and the error is the one the binder holds. When the destination is no pointer or a nil
  one, or not a pointer to a slice, or the struct-only block fails, or a scannable base
  type meets more than one column, \<open>scanAll\<close> returns with the destination and the
  cursor as given and only the error recorded; \<open>Select\<close> then only closes the cursor.
\<close>

theorem Select_not_atomic:
  "(Select grow dest iter = (Some e, dest', iter')
      \<and> remaining (Iter iter) = map Row rows @ remaining (Iter iter') \<and> rows \<noteq> []
    \<longrightarrow> err iter' = Some e
        \<and> dest' = Set_Indirect dest
                    (foldl (Append grow) (MakeSlice 0 (first_row_hint (Iter iter)))
                       (map (select_elem dest iter (iter_values iter')) rows))
        \<and> (\<exists>cap. dest' = Set_Indirect dest
                            (VSlice (map (select_elem dest iter (iter_values iter')) rows) cap)))
   \<and> (ValueOf_Kind dest \<noteq> Ptr \<or> IsNil dest
       \<or> (\<exists>e1. baseType (Value_Type dest) Slice = Inl e1)
       \<or> (\<exists>e2. scannable_verdict iter (Deref (Elem (Deref (Value_Type dest)))) = Inl e2)
       \<or> (scannable_verdict iter (Deref (Elem (Deref (Value_Type dest)))) = Inr True
           \<and> 1 < length (Columns (Iter iter)))
    \<longrightarrow> (\<exists>e. scanAll grow dest iter = (False, dest, iter\<lparr>err := Some e\<rparr>)
            \<and> Select grow dest iter =
                (Some e, dest, iter\<lparr>err := Some e, Iter := (Iter iter)\<lparr>closed := True\<rparr>\<rparr>)))"
proof (intro conjI impI)
  assume a: "Select grow dest iter = (Some e, dest', iter')
      \<and> remaining (Iter iter) = map Row rows @ remaining (Iter iter') \<and> rows \<noteq> []"
  then have s: "Select grow dest iter = (Some e, dest', iter')" by simp
  from Select_rows [OF s] obtain rows' where
    r: "remaining (Iter iter) = map Row rows' @ remaining (Iter iter')"
    "dest' = (if rows' = [] then dest
                else Set_Indirect dest
                       (foldl (Append grow) (MakeSlice 0 (first_row_hint (Iter iter)))
                          (map (select_elem dest iter (iter_values iter')) rows')))"
    by blast
  from a r(1) have "rows' = rows" by (simp add: inj_on_def)
  with r(2) a show d: "dest' = Set_Indirect dest
                    (foldl (Append grow) (MakeSlice 0 (first_row_hint (Iter iter)))
                       (map (select_elem dest iter (iter_values iter')) rows))"
    by simp
  from foldl_Append [of grow "[]" "first_row_hint (Iter iter)"
      "map (select_elem dest iter (iter_values iter')) rows"] d
  show "\<exists>cap. dest' = Set_Indirect dest
                            (VSlice (map (select_elem dest iter (iter_values iter')) rows) cap)"
    by (auto simp: MakeSlice_def)
  from s show "err iter' = Some e"
    by (auto simp: Select_def split: prod.splits)
next
  assume "ValueOf_Kind dest \<noteq> Ptr \<or> IsNil dest
       \<or> (\<exists>e1. baseType (Value_Type dest) Slice = Inl e1)
       \<or> (\<exists>e2. scannable_verdict iter (Deref (Elem (Deref (Value_Type dest)))) = Inl e2)
       \<or> (scannable_verdict iter (Deref (Elem (Deref (Value_Type dest)))) = Inr True
           \<and> 1 < length (Columns (Iter iter)))"
  from scanAll_invalid [OF this, of grow]
  show "\<exists>e. scanAll grow dest iter = (False, dest, iter\<lparr>err := Some e\<rparr>)
            \<and> Select grow dest iter =
                (Some e, dest, iter\<lparr>err := Some e, Iter := (Iter iter)\<lparr>closed := True\<rparr>\<rparr>)"
    using Select_after_invalid by blast
qed

theorem Select_not_atomic_witness:
  "Select double (ptr (SliceOf UnsafeTable)) (fresh_iterx broken_cursor)
     = (Some (DriverError ''cannot unmarshal''),
        Iface (PtrTo (SliceOf UnsafeTable))
          (Some (VSlice [VStruct [([0], ''a'')], VStruct [([0], ''b'')]] 4)),
        (fresh_iterx broken_cursor)
          \<lparr>Iter := broken_cursor\<lparr>pos := 2, iter_err := Some ''cannot unmarshal'', closed := True\<rparr>,
           Mapper := DefaultMapper\<lparr>traversal_calls := 1\<rparr>,
           started := True, err := Some (DriverError ''cannot unmarshal''),
           iter_fields := [[0]], iter_values := [FieldAddr [0]]\<rparr>)
   \<and> (\<exists>cap. Iface (PtrTo (SliceOf UnsafeTable))
               (Some (VSlice [VStruct [([0], ''a'')], VStruct [([0], ''b'')]] 4))
             = Set_Indirect (ptr (SliceOf UnsafeTable))
                 (VSlice (map (select_elem (ptr (SliceOf UnsafeTable)) (fresh_iterx broken_cursor)
                                 [FieldAddr [0]]) [[''a''], [''b'']]) cap))
   \<and> (\<exists>e. Select double (ptr (SliceOf FullName)) (fresh_iterx unsafe_table)
     = (Some e, ptr (SliceOf FullName),
        (fresh_iterx unsafe_table)\<lparr>err := Some e, Iter := (Iter (fresh_iterx unsafe_table))\<lparr>closed := True\<rparr>\<rparr>))"
proof -
  let ?d = "ptr (SliceOf UnsafeTable)"
  let ?d' = "Iface (PtrTo (SliceOf UnsafeTable))
          (Some (VSlice [VStruct [([0], ''a'')], VStruct [([0], ''b'')]] 4))"
  let ?i = "fresh_iterx broken_cursor"
  let ?i' = "?i\<lparr>Iter := broken_cursor\<lparr>pos := 2, iter_err := Some ''cannot unmarshal'', closed := True\<rparr>,
           Mapper := DefaultMapper\<lparr>traversal_calls := 1\<rparr>,
           started := True, err := Some (DriverError ''cannot unmarshal''),
           iter_fields := [[0]], iter_values := [FieldAddr [0]]\<rparr>"
  have s: "Select double ?d ?i = (Some (DriverError ''cannot unmarshal''), ?d', ?i')"
    by (simp add: eval_defs fixture_defs double_def)
  have r: "remaining (Iter ?i) = map Row [[''a''], [''b'']] @ remaining (Iter ?i')"
    by (simp add: remaining_def fixture_defs)
  have v: "iter_values ?i' = [FieldAddr [0]]" by simp
  have "\<exists>cap. ?d' = Set_Indirect ?d
      (VSlice (map (select_elem ?d ?i (iter_values ?i')) [[''a''], [''b'']]) cap)"
    by (rule Select_not_atomic [of double ?d ?i "DriverError ''cannot unmarshal''" ?d' ?i'
          "[[''a''], [''b'']]", THEN conjunct1, rule_format, THEN conjunct2, THEN conjunct2])
       (intro conjI s r, simp)
  then have c1: "\<exists>cap. ?d' = Set_Indirect ?d
      (VSlice (map (select_elem ?d ?i [FieldAddr [0]]) [[''a''], [''b'']]) cap)"
    unfolding v .
  have inv: "ValueOf_Kind (ptr (SliceOf FullName)) \<noteq> Ptr \<or> IsNil (ptr (SliceOf FullName))
       \<or> (\<exists>e1. baseType (Value_Type (ptr (SliceOf FullName))) Slice = Inl e1)
       \<or> (\<exists>e2. scannable_verdict (fresh_iterx unsafe_table)
                  (Deref (Elem (Deref (Value_Type (ptr (SliceOf FullName)))))) = Inl e2)
       \<or> (scannable_verdict (fresh_iterx unsafe_table)
             (Deref (Elem (Deref (Value_Type (ptr (SliceOf FullName)))))) = Inr True
           \<and> 1 < length (Columns (Iter (fresh_iterx unsafe_table))))"
    by (simp add: fixture_defs scannable_verdict_def isScannable_def Deref_def Columns_def)
  from Select_not_atomic [of double "ptr (SliceOf FullName)" "fresh_iterx unsafe_table",
        THEN conjunct2, rule_format, OF inv]
  have c2: "\<exists>e. Select double (ptr (SliceOf FullName)) (fresh_iterx unsafe_table)
     = (Some e, ptr (SliceOf FullName),
        (fresh_iterx unsafe_table)\<lparr>err := Some e, Iter := (Iter (fresh_iterx unsafe_table))\<lparr>closed := True\<rparr>\<rparr>)"
    by blast
  from s c1 c2 show ?thesis by (intro conjI)
qed

end
